theory Spec2Isabelle
  imports Main
begin

section \<open>Values shared by the request pipeline\<close>

text \<open>
  JSON payloads as the handlers build them. A \<open>Date\<close> is kept as its epoch
  milliseconds. An object is an association list in the order the source
  writes its fields; a field whose value is \<open>undefined\<close> is dropped, as
  \<open>JSON.stringify\<close> does, so optional fields are \<open>option\<close>s that contribute
  zero or one entry.
\<close>

datatype json =
    JNull
  | JBool bool
  | JNum int
  | JStr string
  | JDate int
  | JArr "json list"
  | JObj "(string \<times> json) list"

datatype body = NoBody | JsonBody json

record response =
  status :: int
  headers :: "(string \<times> string) list"
  body :: body

text \<open>\<open>Response.json(data, {status})\<close>.\<close>

definition Response_json :: "json \<Rightarrow> int \<Rightarrow> response" where
  "Response_json data st =
     \<lparr>status = st, headers = [(''content-type'', ''application/json'')], body = JsonBody data\<rparr>"

text \<open>Reading a field of a JSON object, for statements about response bodies.\<close>

fun field :: "string \<Rightarrow> json \<Rightarrow> json option" where
  "field k (JObj kvs) = map_of kvs k"
| "field k _ = None"

fun body_json :: "body \<Rightarrow> json option" where
  "body_json NoBody = None"
| "body_json (JsonBody j) = Some j"

text \<open>\<open>error.code\<close> of a response body, when the body has that shape.\<close>

definition error_code_of :: "response \<Rightarrow> json option" where
  "error_code_of r =
     (case body_json (body r) of
        None \<Rightarrow> None
      | Some j \<Rightarrow> (case field ''error'' j of None \<Rightarrow> None | Some e \<Rightarrow> field ''code'' e))"

subsection \<open>Strings\<close>

text \<open>
  \<open>String.prototype.includes\<close>: the argument occurs as a contiguous run.
  Strings are lists of code units; the model keeps the 8-bit ones.
\<close>

fun startsWith :: "string \<Rightarrow> string \<Rightarrow> bool" where
  "startsWith s [] = True"
| "startsWith [] (c # cs) = False"
| "startsWith (x # xs) (c # cs) = (x = c \<and> startsWith xs cs)"

fun str_includes :: "string \<Rightarrow> string \<Rightarrow> bool" where
  "str_includes [] sub = (sub = [])"
| "str_includes (x # xs) sub = (startsWith (x # xs) sub \<or> str_includes xs sub)"

section \<open>Error taxonomy and responder\<close>

datatype ErrorCode =
    UNAUTHORIZED
  | FORBIDDEN
  | SESSION_EXPIRED
  | VALIDATION_ERROR
  | INVALID_INPUT
  | MISSING_REQUIRED_FIELD
  | DATABASE_ERROR
  | RECORD_NOT_FOUND
  | DUPLICATE_ENTRY
  | EXTERNAL_API_ERROR
  | API_RATE_LIMITED
  | API_UNAVAILABLE
  | AI_ERROR
  | TOOL_EXECUTION_ERROR
  | INTERNAL_SERVER_ERROR
  | NETWORK_ERROR
  | TIMEOUT

text \<open>The string value of each enum member.\<close>

fun code_string :: "ErrorCode \<Rightarrow> string" where
  "code_string UNAUTHORIZED = ''UNAUTHORIZED''"
| "code_string FORBIDDEN = ''FORBIDDEN''"
| "code_string SESSION_EXPIRED = ''SESSION_EXPIRED''"
| "code_string VALIDATION_ERROR = ''VALIDATION_ERROR''"
| "code_string INVALID_INPUT = ''INVALID_INPUT''"
| "code_string MISSING_REQUIRED_FIELD = ''MISSING_REQUIRED_FIELD''"
| "code_string DATABASE_ERROR = ''DATABASE_ERROR''"
| "code_string RECORD_NOT_FOUND = ''RECORD_NOT_FOUND''"
| "code_string DUPLICATE_ENTRY = ''DUPLICATE_ENTRY''"
| "code_string EXTERNAL_API_ERROR = ''EXTERNAL_API_ERROR''"
| "code_string API_RATE_LIMITED = ''API_RATE_LIMITED''"
| "code_string API_UNAVAILABLE = ''API_UNAVAILABLE''"
| "code_string AI_ERROR = ''AI_ERROR''"
| "code_string TOOL_EXECUTION_ERROR = ''TOOL_EXECUTION_ERROR''"
| "code_string INTERNAL_SERVER_ERROR = ''INTERNAL_SERVER_ERROR''"
| "code_string NETWORK_ERROR = ''NETWORK_ERROR''"
| "code_string TIMEOUT = ''TIMEOUT''"

text \<open>
  \<open>class ApplicationError extends Error\<close>. The constructor stamps the
  current time; \<open>details\<close>, \<open>userId\<close> and \<open>requestId\<close> may be left undefined.
\<close>

record ApplicationError =
  code :: ErrorCode
  message :: string
  details :: "json option"
  timestamp :: int
  userId :: "string option"
  requestId :: "string option"

definition new_ApplicationError ::
  "ErrorCode \<Rightarrow> string \<Rightarrow> json option \<Rightarrow> int \<Rightarrow> ApplicationError" where
  "new_ApplicationError c msg det now =
     \<lparr>code = c, message = msg, details = det, timestamp = now,
      userId = None, requestId = None\<rparr>"

text \<open>
  What a \<open>throw\<close> can carry through this code: a \<open>Response\<close> (the wrapper's
  early-return channel), an \<open>ApplicationError\<close>, a plain \<open>Error\<close> with its
  message, or any other value, kept as its \<open>String(...)\<close> rendering.
\<close>

datatype thrown =
    ThrownResponse response
  | ThrownApplicationError ApplicationError
  | ThrownError string
  | ThrownValue string

text \<open>\<open>getStatusCodeFromErrorCode\<close>: the \<open>switch\<close>, case by case.\<close>

fun getStatusCodeFromErrorCode :: "ErrorCode \<Rightarrow> int" where
  "getStatusCodeFromErrorCode UNAUTHORIZED = 401"
| "getStatusCodeFromErrorCode SESSION_EXPIRED = 401"
| "getStatusCodeFromErrorCode FORBIDDEN = 403"
| "getStatusCodeFromErrorCode RECORD_NOT_FOUND = 404"
| "getStatusCodeFromErrorCode VALIDATION_ERROR = 400"
| "getStatusCodeFromErrorCode INVALID_INPUT = 400"
| "getStatusCodeFromErrorCode MISSING_REQUIRED_FIELD = 400"
| "getStatusCodeFromErrorCode DUPLICATE_ENTRY = 409"
| "getStatusCodeFromErrorCode API_RATE_LIMITED = 429"
| "getStatusCodeFromErrorCode API_UNAVAILABLE = 503"
| "getStatusCodeFromErrorCode TIMEOUT = 408"
| "getStatusCodeFromErrorCode DATABASE_ERROR = 500"
| "getStatusCodeFromErrorCode EXTERNAL_API_ERROR = 500"
| "getStatusCodeFromErrorCode AI_ERROR = 500"
| "getStatusCodeFromErrorCode TOOL_EXECUTION_ERROR = 500"
| "getStatusCodeFromErrorCode INTERNAL_SERVER_ERROR = 500"
| "getStatusCodeFromErrorCode NETWORK_ERROR = 500"

text \<open>The body \<open>{error: {code, message, details?, timestamp}}\<close>.\<close>

definition error_envelope :: "ErrorCode \<Rightarrow> string \<Rightarrow> json option \<Rightarrow> int \<Rightarrow> json" where
  "error_envelope c msg det ts =
     JObj [(''error'',
       JObj ([(''code'', JStr (code_string c)), (''message'', JStr msg)]
             @ (case det of None \<Rightarrow> [] | Some d \<Rightarrow> [(''details'', d)])
             @ [(''timestamp'', JDate ts)]))]"

text \<open>
  \<open>handleApiError(error, userId?, requestId?)\<close>; \<open>now\<close> is what
  \<open>new Date()\<close> reads in the untyped branches. The branches are tried in the
  source's order: typed error, missing relation, network, generic.
\<close>

definition handleApiError :: "thrown \<Rightarrow> int \<Rightarrow> response" where
  "handleApiError error now =
     (case error of
        ThrownApplicationError e \<Rightarrow>
          Response_json (error_envelope (code e) (message e) (details e) (timestamp e))
            (getStatusCodeFromErrorCode (code e))
      | ThrownError msg \<Rightarrow>
          if str_includes msg ''relation'' \<and> str_includes msg ''does not exist'' then
            Response_json
              (error_envelope DATABASE_ERROR
                 ''Database table does not exist. Please run migrations.'' None now) 500
          else if str_includes msg ''timeout'' \<or> str_includes msg ''ECONNREFUSED'' then
            Response_json
              (error_envelope NETWORK_ERROR
                 ''Network connection failed. Please try again.'' None now) 503
          else Response_json (error_envelope INTERNAL_SERVER_ERROR msg None now) 500
      | ThrownResponse r \<Rightarrow>
          Response_json
            (error_envelope INTERNAL_SERVER_ERROR ''An unexpected error occurred'' None now) 500
      | ThrownValue v \<Rightarrow>
          Response_json
            (error_envelope INTERNAL_SERVER_ERROR ''An unexpected error occurred'' None now) 500)"

text \<open>
  The status table of the specification, section 4.2, row by row: the kinds
  of a row and the status the row assigns.
\<close>

definition status_table_4_2 :: "(ErrorCode list \<times> int) list" where
  "status_table_4_2 =
     [([UNAUTHORIZED, SESSION_EXPIRED], 401),
      ([FORBIDDEN], 403),
      ([RECORD_NOT_FOUND], 404),
      ([VALIDATION_ERROR, INVALID_INPUT, MISSING_REQUIRED_FIELD], 400),
      ([DUPLICATE_ENTRY], 409),
      ([API_RATE_LIMITED], 429),
      ([TIMEOUT], 408),
      ([API_UNAVAILABLE], 503),
      ([DATABASE_ERROR, EXTERNAL_API_ERROR, AI_ERROR, TOOL_EXECUTION_ERROR,
        INTERNAL_SERVER_ERROR, NETWORK_ERROR], 500)]"

text \<open>The statuses of the rows that list a kind.\<close>

definition table_statuses :: "ErrorCode \<Rightarrow> int list" where
  "table_statuses k = map snd (filter (\<lambda>row. k \<in> set (fst row)) status_table_4_2)"

section \<open>Number rendering\<close>

text \<open>
  \<open>Number.prototype.toString()\<close> on the integers this code renders
  (limits, seconds, attempt counts), and \<open>Math.ceil(x / 1000)\<close> on an
  integer \<open>x\<close>.
\<close>

definition digit_char :: "nat \<Rightarrow> char" where
  "digit_char d = ''0123456789'' ! d"

fun show_nat :: "nat \<Rightarrow> string" where
  "show_nat n = (if n < 10 then [digit_char n] else show_nat (n div 10) @ [digit_char (n mod 10)])"

declare show_nat.simps [simp del]

definition toString :: "int \<Rightarrow> string" where
  "toString i = (if i < 0 then CHR ''-'' # show_nat (nat (- i)) else show_nat (nat i))"

definition ceil_div :: "int \<Rightarrow> int \<Rightarrow> int" where
  "ceil_div x d = - ((- x) div d)"

section \<open>Rate limiting\<close>

text \<open>
  The part of a \<open>NextRequest\<close> this code reads: the method, the headers
  (names in lower case, as the \<open>Headers\<close> object keeps them) and the
  connection address, which may be undefined.
\<close>

record request =
  req_method :: string
  req_headers :: "(string \<times> string) list"
  ip :: "string option"

definition headers_get :: "request \<Rightarrow> string \<Rightarrow> string option" where
  "headers_get r name = map_of (req_headers r) name"

record RateLimitRecord =
  count :: int
  resetTime :: int

text \<open>The module-level \<open>store\<close>: one table shared by every fixed-window limiter.\<close>

type_synonym store = "string \<rightharpoonup> RateLimitRecord"

text \<open>
  \<open>RateLimitConfig\<close> after the constructor has filled the defaults. A key
  generator is caller-supplied code and may throw.
\<close>

record RateLimitConfig =
  windowMs :: int
  maxRequests :: int
  skipSuccessfulRequests :: bool
  skipFailedRequests :: bool
  keyGenerator :: "request \<Rightarrow> thrown + string"
  limit_message :: string

text \<open>
  \<open>defaultKeyGenerator\<close>: the first entry of a non-empty
  \<open>x-forwarded-for\<close>, else the connection address; an undefined address
  renders as \<open>undefined\<close> in the template string.
\<close>

definition defaultKeyGenerator :: "request \<Rightarrow> string" where
  "defaultKeyGenerator r =
     ''rate_limit:'' @
       (case headers_get r ''x-forwarded-for'' of
          Some (c # cs) \<Rightarrow> takeWhile (\<lambda>x. x \<noteq> CHR '','') (c # cs)
        | _ \<Rightarrow> (case ip r of Some a \<Rightarrow> a | None \<Rightarrow> ''undefined''))"

text \<open>\<open>cleanup()\<close>: delete every record whose \<open>resetTime\<close> is before now.\<close>

definition cleanup :: "int \<Rightarrow> store \<Rightarrow> store" where
  "cleanup now st =
     (\<lambda>k. case st k of
             None \<Rightarrow> None
           | Some r \<Rightarrow> if resetTime r < now then None else Some r)"

record checkResult =
  allowed :: bool
  remaining :: int
  res_resetTime :: int

text \<open>
  \<open>RateLimiter.check\<close>. The record read from the store is the stored object
  itself, so \<open>record.count++\<close> followed by \<open>store.set\<close> writes the
  incremented record; a fresh record is stored only when the check admits.
\<close>

definition RateLimiter_check ::
  "RateLimitConfig \<Rightarrow> request \<Rightarrow> int \<Rightarrow> store \<Rightarrow> (thrown + checkResult) \<times> store" where
  "RateLimiter_check cfg req now st0 =
     (let st = cleanup now st0 in
      case keyGenerator cfg req of
        Inl e \<Rightarrow> (Inl e, st)
      | Inr key \<Rightarrow>
          let fresh = \<lparr>count = 0, resetTime = now + windowMs cfg\<rparr>;
              record = (case st key of
                          None \<Rightarrow> fresh
                        | Some r \<Rightarrow> if resetTime r < now then fresh else r);
              ok = count record < maxRequests cfg;
              rem = max 0 (maxRequests cfg - count record - 1)
          in (Inr \<lparr>allowed = ok, remaining = rem, res_resetTime = resetTime record\<rparr>,
              if ok then st(key \<mapsto> record\<lparr>count := count record + 1\<rparr>) else st))"

text \<open>\<open>RateLimiter.updateCount\<close>, for the skip options.\<close>

definition updateCount ::
  "RateLimitConfig \<Rightarrow> request \<Rightarrow> bool \<Rightarrow> store \<Rightarrow> (thrown + unit) \<times> store" where
  "updateCount cfg req success st =
     (if (success \<and> skipSuccessfulRequests cfg) \<or> (\<not> success \<and> skipFailedRequests cfg) then
        (case keyGenerator cfg req of
           Inl e \<Rightarrow> (Inl e, st)
         | Inr key \<Rightarrow>
             (case st key of
                None \<Rightarrow> (Inr (), st)
              | Some r \<Rightarrow> (Inr (), st(key \<mapsto> r\<lparr>count := max 0 (count r - 1)\<rparr>))))
      else (Inr (), st))"

text \<open>\<open>RateLimiter.getHeaders\<close>.\<close>

definition RateLimiter_getHeaders ::
  "RateLimitConfig \<Rightarrow> int \<Rightarrow> int \<Rightarrow> (string \<times> string) list" where
  "RateLimiter_getHeaders cfg rem reset =
     [(''X-RateLimit-Limit'', toString (maxRequests cfg)),
      (''X-RateLimit-Remaining'', toString rem),
      (''X-RateLimit-Reset'', toString (ceil_div reset 1000)),
      (''X-RateLimit-Window'', toString (ceil_div (windowMs cfg) 1000))]"

text \<open>
  A driver for statements about a run: the checks one request makes at the
  given clock readings, in order, each on the store the previous one left.
\<close>

fun run_checks ::
  "RateLimitConfig \<Rightarrow> request \<Rightarrow> int list \<Rightarrow> store \<Rightarrow> (thrown + checkResult) list \<times> store" where
  "run_checks cfg req [] st = ([], st)"
| "run_checks cfg req (t # ts) st =
     (case RateLimiter_check cfg req t st of
        (r, st') \<Rightarrow> (case run_checks cfg req ts st' of (rs, st'') \<Rightarrow> (r # rs, st'')))"

text \<open>Whether a check returned normally and admitted.\<close>

fun admitted :: "thrown + checkResult \<Rightarrow> bool" where
  "admitted (Inl e) = False"
| "admitted (Inr r) = allowed r"

subsection \<open>Sliding window\<close>

text \<open>
  \<open>SlidingWindowRateLimiter\<close>: each instance owns its \<open>requests\<close> table,
  key to admission timestamps in the order they were pushed.
\<close>

type_synonym requests = "string \<rightharpoonup> int list"

record slidingResult =
  sw_allowed :: bool
  sw_remaining :: int

definition SlidingWindow_check ::
  "RateLimitConfig \<Rightarrow> request \<Rightarrow> int \<Rightarrow> requests \<Rightarrow> (thrown + slidingResult) \<times> requests" where
  "SlidingWindow_check cfg req now table =
     (case keyGenerator cfg req of
        Inl e \<Rightarrow> (Inl e, table)
      | Inr key \<Rightarrow>
          let windowStart = now - windowMs cfg;
              stored = (case table key of None \<Rightarrow> [] | Some ts \<Rightarrow> ts);
              kept = filter (\<lambda>timestamp. timestamp > windowStart) stored;
              ok = int (length kept) < maxRequests cfg;
              rem = max 0 (maxRequests cfg - int (length kept) - (if ok then 1 else 0))
          in (Inr \<lparr>sw_allowed = ok, sw_remaining = rem\<rparr>,
              if ok then table(key \<mapsto> kept @ [now]) else table))"

text \<open>\<open>SlidingWindowRateLimiter.cleanup\<close>.\<close>

definition SlidingWindow_cleanup :: "RateLimitConfig \<Rightarrow> int \<Rightarrow> requests \<Rightarrow> requests" where
  "SlidingWindow_cleanup cfg now table =
     (\<lambda>k. case table k of
             None \<Rightarrow> None
           | Some ts \<Rightarrow>
               (case filter (\<lambda>timestamp. timestamp > now - windowMs cfg) ts of
                  [] \<Rightarrow> None
                | t # rest \<Rightarrow> Some (t # rest)))"

subsection \<open>The limiters the module exports\<close>

definition default_key :: "request \<Rightarrow> thrown + string" where
  "default_key r = Inr (defaultKeyGenerator r)"

definition apiLimiter :: RateLimitConfig where
  "apiLimiter =
     \<lparr>windowMs = 60 * 1000, maxRequests = 100,
      skipSuccessfulRequests = False, skipFailedRequests = False,
      keyGenerator = default_key,
      limit_message = ''Too many requests, please try again later.''\<rparr>"

definition chatLimiter :: RateLimitConfig where
  "chatLimiter =
     \<lparr>windowMs = 60 * 1000, maxRequests = 60,
      skipSuccessfulRequests = False, skipFailedRequests = False,
      keyGenerator = default_key,
      limit_message = ''Too many chat requests, please wait a moment.''\<rparr>"

definition authLimiter :: RateLimitConfig where
  "authLimiter =
     \<lparr>windowMs = 15 * 60 * 1000, maxRequests = 10,
      skipSuccessfulRequests = False, skipFailedRequests = False,
      keyGenerator = default_key,
      limit_message = ''Too many authentication attempts, please try again later.''\<rparr>"

definition externalApiLimiter :: RateLimitConfig where
  "externalApiLimiter =
     \<lparr>windowMs = 60 * 60 * 1000, maxRequests = 100,
      skipSuccessfulRequests = False, skipFailedRequests = False,
      keyGenerator =
        (\<lambda>r. Inr (''external_api:'' @
           (case headers_get r ''x-user-id'' of
              Some (c # cs) \<Rightarrow> c # cs
            | _ \<Rightarrow> defaultKeyGenerator r))),
      limit_message = ''Too many requests, please try again later.''\<rparr>"

text \<open>
  A small limiter for worked examples: two requests per second, default key.
\<close>

definition twoPerSecond :: RateLimitConfig where
  "twoPerSecond =
     \<lparr>windowMs = 1000, maxRequests = 2,
      skipSuccessfulRequests = False, skipFailedRequests = False,
      keyGenerator = default_key,
      limit_message = ''Too many requests, please try again later.''\<rparr>"

definition localGet :: request where
  "localGet = \<lparr>req_method = ''GET'', req_headers = [], ip = Some ''10.0.0.7''\<rparr>"

text \<open>
  Drivers for statements about a run of the sliding-window limiter: the
  checks of one request at the given readings, the readings at which a check
  admitted, and the timestamps a table holds for a key.
\<close>

fun sliding_run ::
  "RateLimitConfig \<Rightarrow> request \<Rightarrow> int list \<Rightarrow> requests \<Rightarrow> (thrown + slidingResult) list \<times> requests" where
  "sliding_run cfg req [] table = ([], table)"
| "sliding_run cfg req (t # ts) table =
     (case SlidingWindow_check cfg req t table of
        (r, table') \<Rightarrow> (case sliding_run cfg req ts table' of (rs, table'') \<Rightarrow> (r # rs, table'')))"

fun sw_admitted :: "thrown + slidingResult \<Rightarrow> bool" where
  "sw_admitted (Inl e) = False"
| "sw_admitted (Inr r) = sw_allowed r"

definition admission_times :: "int list \<Rightarrow> (thrown + slidingResult) list \<Rightarrow> int list" where
  "admission_times ts rs = map fst (filter (\<lambda>p. sw_admitted (snd p)) (zip ts rs))"

definition stored_times :: "requests \<Rightarrow> string \<Rightarrow> int list" where
  "stored_times table key = (case table key of None \<Rightarrow> [] | Some ts \<Rightarrow> ts)"

section \<open>Request handler wrapper\<close>

text \<open>\<open>Array.prototype.join\<close> on strings.\<close>

fun join :: "string \<Rightarrow> string list \<Rightarrow> string" where
  "join sep [] = []"
| "join sep [x] = x"
| "join sep (x # y # ys) = x @ sep @ join sep (y # ys)"

text \<open>
  An object literal with a spread, \<open>{...base, ...ext}\<close>: a key of \<open>ext\<close>
  that \<open>base\<close> already has overwrites the value in place, a new key is
  appended.
\<close>

fun assign :: "(string \<times> string) list \<Rightarrow> string \<Rightarrow> string \<Rightarrow> (string \<times> string) list" where
  "assign [] k v = [(k, v)]"
| "assign ((k', v') # kvs) k v = (if k' = k then (k, v) # kvs else (k', v') # assign kvs k v)"

fun spread :: "(string \<times> string) list \<Rightarrow> (string \<times> string) list \<Rightarrow> (string \<times> string) list" where
  "spread base [] = base"
| "spread base ((k, v) # ext) = spread (assign base k v) ext"

text \<open>
  \<open>createErrorResponse(code, message, details, status)\<close>; \<open>now\<close> is the
  clock reading behind \<open>meta.timestamp\<close>. \<open>details\<close> may be
  \<open>undefined\<close> (dropped) or any value, \<open>null\<close> included (kept).
\<close>

definition createErrorResponse :: "string \<Rightarrow> string \<Rightarrow> json option \<Rightarrow> int \<Rightarrow> int \<Rightarrow> response" where
  "createErrorResponse c msg det st now =
     Response_json
       (JObj [(''success'', JBool False),
              (''error'',
                 JObj ([(''code'', JStr c), (''message'', JStr msg)]
                       @ (case det of None \<Rightarrow> [] | Some d \<Rightarrow> [(''details'', d)]))),
              (''meta'', JObj [(''timestamp'', JDate now)])])
       st"

definition createSuccessResponse :: "json \<Rightarrow> int \<Rightarrow> response" where
  "createSuccessResponse data now =
     Response_json
       (JObj [(''success'', JBool True), (''data'', data),
              (''meta'', JObj [(''timestamp'', JDate now)])])
       200"

record user =
  user_id :: string
  user_email :: "string option"
  user_name :: "string option"
  user_image :: "string option"

text \<open>
  What \<open>getServerSession\<close> can do for a request: throw, resolve to no
  session, to a session without a user, or to a session with a user.
\<close>

datatype session = SessionThrows | NoSession | SessionWithoutUser | SessionOf user

text \<open>\<open>getAuthenticatedUser\<close>: null when there is no user and when the lookup throws.\<close>

fun getAuthenticatedUser :: "session \<Rightarrow> user option" where
  "getAuthenticatedUser (SessionOf u) = Some u"
| "getAuthenticatedUser SessionThrows = None"
| "getAuthenticatedUser NoSession = None"
| "getAuthenticatedUser SessionWithoutUser = None"

text \<open>\<open>requireAuth\<close>: throws the 401 response when there is no user.\<close>

definition requireAuth :: "session \<Rightarrow> int \<Rightarrow> thrown + user" where
  "requireAuth sess now =
     (case getAuthenticatedUser sess of
        None \<Rightarrow>
          Inl (ThrownResponse
                 (createErrorResponse ''UNAUTHORIZED'' ''Authentication required''
                    (Some JNull) 401 now))
      | Some u \<Rightarrow> Inr u)"

text \<open>\<open>validateMethod\<close>: throws the 405 response when the method is not listed.\<close>

definition validateMethod :: "request \<Rightarrow> string list \<Rightarrow> int \<Rightarrow> thrown + unit" where
  "validateMethod req allowedMethods now =
     (if req_method req \<notin> set allowedMethods then
        Inl (ThrownResponse
               (createErrorResponse ''METHOD_NOT_ALLOWED''
                  (''Method '' @ req_method req @ '' not allowed. Allowed methods: ''
                     @ join '', '' allowedMethods)
                  (Some (JObj [(''allowedMethods'', JArr (map JStr allowedMethods))]))
                  405 now))
      else Inr ())"

text \<open>
  The second argument of a domain handler, \<open>{...context, user}\<close>: the path
  parameters and the resolved user, null when there is none.
\<close>

record handlerContext =
  params :: "json option"
  ctx_user :: "user option"

type_synonym handler = "request \<Rightarrow> handlerContext \<Rightarrow> thrown + response"

text \<open>
  The \<open>rateLimiter\<close> option: a function from the request to a response or
  null, which may read the clock and the limiter store, and may throw.
\<close>

type_synonym middleware = "request \<Rightarrow> int \<Rightarrow> store \<Rightarrow> (thrown + response option) \<times> store"

record options =
  opt_requireAuth :: bool
  opt_allowedMethods :: "string list option"
  opt_rateLimiter :: "middleware option"

text \<open>
  The calls a wrapped handler makes to the code around it, in order: to the
  configured rate limiter, to identity resolution (with what it yielded),
  and to the domain handler (with the context it received).
\<close>

datatype event =
    CalledRateLimiter
  | ResolvedIdentity "user option"
  | InvokedHandler handlerContext

text \<open>
  The steps of the \<open>try\<close> block after rate limiting: identity, then the
  domain handler.
\<close>

definition authenticate_and_handle ::
  "handler \<Rightarrow> options \<Rightarrow> request \<Rightarrow> json option \<Rightarrow> int \<Rightarrow> session \<Rightarrow>
   (thrown + response) \<times> event list" where
  "authenticate_and_handle h opts req ps now sess =
     (case (if opt_requireAuth opts
            then (case requireAuth sess now of Inl e \<Rightarrow> Inl e | Inr u \<Rightarrow> Inr (Some u))
            else Inr (getAuthenticatedUser sess)) of
        Inl e \<Rightarrow> (Inl e, [ResolvedIdentity None])
      | Inr u \<Rightarrow>
          (h req \<lparr>params = ps, ctx_user = u\<rparr>,
           [ResolvedIdentity u, InvokedHandler \<lparr>params = ps, ctx_user = u\<rparr>]))"

text \<open>The \<open>try\<close> block: what it returns or throws, the calls made, the store left.\<close>

definition try_block ::
  "handler \<Rightarrow> options \<Rightarrow> request \<Rightarrow> json option \<Rightarrow> int \<Rightarrow> session \<Rightarrow> store \<Rightarrow>
   (thrown + response) \<times> event list \<times> store" where
  "try_block h opts req ps now sess st =
     (case (case opt_allowedMethods opts of
              None \<Rightarrow> Inr ()
            | Some ms \<Rightarrow> validateMethod req ms now) of
        Inl e \<Rightarrow> (Inl e, [], st)
      | Inr u \<Rightarrow>
          (case opt_rateLimiter opts of
             None \<Rightarrow>
               (case authenticate_and_handle h opts req ps now sess of
                  (r, evs) \<Rightarrow> (r, evs, st))
           | Some limiter \<Rightarrow>
               (case limiter req now st of
                  (Inl e, st') \<Rightarrow> (Inl e, [CalledRateLimiter], st')
                | (Inr (Some rateLimitResponse), st') \<Rightarrow>
                    (Inr rateLimitResponse, [CalledRateLimiter], st')
                | (Inr None, st') \<Rightarrow>
                    (case authenticate_and_handle h opts req ps now sess of
                       (r, evs) \<Rightarrow> (r, CalledRateLimiter # evs, st')))))"

text \<open>The \<open>catch\<close> block.\<close>

definition catch_block :: "thrown \<Rightarrow> string \<Rightarrow> int \<Rightarrow> response" where
  "catch_block error rid now =
     (case error of
        ThrownResponse r \<Rightarrow> r
      | ThrownApplicationError e \<Rightarrow>
          createErrorResponse ''INTERNAL_SERVER_ERROR'' (message e)
            (Some (JObj [(''requestId'', JStr rid)])) 500 now
      | ThrownError msg \<Rightarrow>
          createErrorResponse ''INTERNAL_SERVER_ERROR'' msg
            (Some (JObj [(''requestId'', JStr rid)])) 500 now
      | ThrownValue v \<Rightarrow>
          createErrorResponse ''INTERNAL_SERVER_ERROR'' ''An unexpected error occurred''
            (Some (JObj [(''requestId'', JStr rid)])) 500 now)"

record handled =
  reply :: response
  calls :: "event list"
  store_after :: store

text \<open>
  \<open>createApiHandler(handler, options)\<close> applied to a request and its path
  parameters. The surroundings are arguments: the clock reading, what the
  session lookup does, the request id \<open>generateRequestId\<close> produced, and
  the limiter store.
\<close>

definition createApiHandler ::
  "handler \<Rightarrow> options \<Rightarrow> request \<Rightarrow> json option \<Rightarrow> int \<Rightarrow> session \<Rightarrow> string \<Rightarrow> store \<Rightarrow> handled" where
  "createApiHandler h opts req ps now sess rid st =
     (case try_block h opts req ps now sess st of
        (Inr r, evs, st') \<Rightarrow> \<lparr>reply = r, calls = evs, store_after = st'\<rparr>
      | (Inl error, evs, st') \<Rightarrow>
          \<lparr>reply = catch_block error rid now, calls = evs, store_after = st'\<rparr>)"

subsection \<open>Rate-limit middleware\<close>

text \<open>
  What \<open>createRateLimit\<close> uses of its limiter argument: the \<open>check\<close> and
  \<open>getHeaders\<close> methods, either of which may throw, and the configured
  message.
\<close>

record limiter =
  check :: "request \<Rightarrow> int \<Rightarrow> store \<Rightarrow> (thrown + checkResult) \<times> store"
  getHeaders :: "int \<Rightarrow> int \<Rightarrow> thrown + (string \<times> string) list"
  config_message :: string

text \<open>An instance of the \<open>RateLimiter\<close> class.\<close>

definition RateLimiter :: "RateLimitConfig \<Rightarrow> limiter" where
  "RateLimiter cfg =
     \<lparr>check = RateLimiter_check cfg,
      getHeaders = (\<lambda>rem reset. Inr (RateLimiter_getHeaders cfg rem reset)),
      config_message = limit_message cfg\<rparr>"

text \<open>
  \<open>createRateLimit(limiter)\<close>: the 429 response on rejection, a bodiless
  response carrying the headers on admission (\<open>new Response(null, {headers})\<close>,
  status 200), and null when anything inside the \<open>try\<close> throws.
\<close>

definition createRateLimit :: "limiter \<Rightarrow> middleware" where
  "createRateLimit lim req now st =
     (case check lim req now st of
        (Inl error, st') \<Rightarrow> (Inr None, st')
      | (Inr res, st') \<Rightarrow>
          (case getHeaders lim (remaining res) (res_resetTime res) of
             Inl error \<Rightarrow> (Inr None, st')
           | Inr hs \<Rightarrow>
               if \<not> allowed res then
                 (Inr (Some
                    \<lparr>status = 429,
                     headers =
                       spread [(''Content-Type'', ''application/json''),
                               (''Retry-After'',
                                  toString (ceil_div (res_resetTime res - now) 1000))] hs,
                     body =
                       JsonBody (JObj [(''error'',
                         JObj [(''code'', JStr ''RATE_LIMITED''),
                               (''message'', JStr (config_message lim)),
                               (''retryAfter'',
                                  JNum (ceil_div (res_resetTime res - now) 1000))])])\<rparr>),
                  st')
               else (Inr (Some \<lparr>status = 200, headers = hs, body = NoBody\<rparr>), st')))"

text \<open>Whether the wrapper called the domain handler.\<close>

fun is_InvokedHandler :: "event \<Rightarrow> bool" where
  "is_InvokedHandler (InvokedHandler c) = True"
| "is_InvokedHandler _ = False"

definition handler_invoked :: "handled \<Rightarrow> bool" where
  "handler_invoked r = list_ex is_InvokedHandler (calls r)"

subsection \<open>Handlers and options for worked examples\<close>

text \<open>A handler that lists no chats, and one that reports a missing chat.\<close>

definition okHandler :: handler where
  "okHandler req ctx = Inr (createSuccessResponse (JObj [(''chats'', JArr [])]) 0)"

definition notFoundHandler :: handler where
  "notFoundHandler req ctx =
     Inl (ThrownApplicationError (new_ApplicationError RECORD_NOT_FOUND ''Chat not found'' None 0))"

text \<open>A handler that answers early by throwing a \<open>Response\<close>.\<close>

definition forbiddenHandler :: handler where
  "forbiddenHandler req ctx =
     Inl (ThrownResponse (createErrorResponse ''FORBIDDEN'' ''Not your chat'' None 403 0))"

definition plainOptions :: options where
  "plainOptions =
     \<lparr>opt_requireAuth = False, opt_allowedMethods = None, opt_rateLimiter = None\<rparr>"

definition authOptions :: options where
  "authOptions =
     \<lparr>opt_requireAuth = True, opt_allowedMethods = Some [''GET'', ''POST''],
      opt_rateLimiter = None\<rparr>"

definition limitedOptions :: options where
  "limitedOptions =
     \<lparr>opt_requireAuth = False, opt_allowedMethods = Some [''GET''],
      opt_rateLimiter = Some (createRateLimit (RateLimiter twoPerSecond))\<rparr>"

text \<open>A limiter whose key generator throws.\<close>

definition brokenLimiter :: limiter where
  "brokenLimiter =
     RateLimiter (twoPerSecond\<lparr>keyGenerator := (\<lambda>r. Inl (ThrownError ''headers unavailable''))\<rparr>)"

section \<open>Retry helper\<close>

text \<open>
  \<open>lastError = error instanceof Error ? error : new Error(String(error))\<close>,
  read at \<open>.message\<close>.
\<close>

fun lastError_message :: "thrown \<Rightarrow> string" where
  "lastError_message (ThrownApplicationError e) = message e"
| "lastError_message (ThrownError msg) = msg"
| "lastError_message (ThrownValue v) = v"
| "lastError_message (ThrownResponse r) = ''[object Response]''"

text \<open>
  What a call of \<open>withRetry\<close> leaves behind: what it returned or threw,
  how many times it invoked the operation, and the waits it made between
  attempts, in order.
\<close>

record 'a retried =
  outcome :: "thrown + 'a"
  invocations :: nat
  waits :: "int list"

text \<open>
  The \<open>for\<close> loop of \<open>withRetry\<close>, from a given \<open>attempt\<close>. The
  operation is effectful: \<open>operation n\<close> is what its invocation does after
  \<open>n\<close> earlier ones. \<open>now\<close> stamps the error raised at exhaustion. When
  the loop body never runs, \<open>throw lastError\<close> throws \<open>undefined\<close>.
\<close>

function withRetry_from ::
  "(nat \<Rightarrow> thrown + 'a) \<Rightarrow> int \<Rightarrow> int \<Rightarrow> int \<Rightarrow> int \<Rightarrow> nat \<Rightarrow> int list \<Rightarrow> 'a retried" where
  "withRetry_from operation maxRetries delay now attempt made ws =
     (if attempt \<le> maxRetries then
        (case operation made of
           Inr v \<Rightarrow> \<lparr>outcome = Inr v, invocations = Suc made, waits = ws\<rparr>
         | Inl error \<Rightarrow>
             if attempt = maxRetries then
               \<lparr>outcome =
                  Inl (ThrownApplicationError
                    (new_ApplicationError EXTERNAL_API_ERROR
                       (''Operation failed after '' @ toString maxRetries @ '' attempts: ''
                          @ lastError_message error)
                       (Some (JObj [(''attempts'', JNum maxRetries),
                                    (''lastError'', JStr (lastError_message error))]))
                       now)),
                invocations = Suc made, waits = ws\<rparr>
             else
               withRetry_from operation maxRetries delay now (attempt + 1) (Suc made)
                 (ws @ [delay * 2 ^ nat (attempt - 1)]))
      else \<lparr>outcome = Inl (ThrownValue ''undefined''), invocations = made, waits = ws\<rparr>)"
  by pat_completeness auto
termination
  by (relation "measure (\<lambda>(operation, maxRetries, delay, now, attempt, made, ws).
        nat (maxRetries + 1 - attempt))") auto

declare withRetry_from.simps [simp del]

text \<open>\<open>withRetry(operation, maxRetries = 3, delay = 1000)\<close>.\<close>

definition withRetry :: "(nat \<Rightarrow> thrown + 'a) \<Rightarrow> int \<Rightarrow> int \<Rightarrow> int \<Rightarrow> 'a retried" where
  "withRetry operation maxRetries delay now =
     withRetry_from operation maxRetries delay now 1 0 []"

definition withRetry_defaults :: "(nat \<Rightarrow> thrown + 'a) \<Rightarrow> int \<Rightarrow> 'a retried" where
  "withRetry_defaults operation now = withRetry operation 3 1000 now"

section \<open>Validators\<close>

text \<open>
  The regular expressions of the validators, in the fragment they use:
  a character class, concatenation, \<open>+\<close> and \<open>{n}\<close>. Both patterns are
  anchored with \<open>^\<close> and \<open>$\<close> and have no multiline flag, so
  \<open>test\<close> asks for a match of the whole string.
\<close>

datatype regex =
    Class "char \<Rightarrow> bool"
  | Then regex regex
  | OneOrMore regex
  | Times nat regex

text \<open>
  Matching by exploring every way a pattern can consume a prefix:
  \<open>remainders r s\<close> lists what can be left of \<open>s\<close>. An iteration of \<open>+\<close>
  that consumes nothing is not repeated.
\<close>

fun plus_iter :: "(string \<Rightarrow> string list) \<Rightarrow> nat \<Rightarrow> string \<Rightarrow> string list" where
  "plus_iter step 0 s = []"
| "plus_iter step (Suc fuel) s =
     step s @ concat (map (plus_iter step fuel) (filter (\<lambda>r. length r < length s) (step s)))"

fun times_iter :: "(string \<Rightarrow> string list) \<Rightarrow> nat \<Rightarrow> string \<Rightarrow> string list" where
  "times_iter step 0 s = [s]"
| "times_iter step (Suc n) s = concat (map (times_iter step n) (step s))"

primrec remainders :: "regex \<Rightarrow> string \<Rightarrow> string list" where
  "remainders (Class p) = (\<lambda>s. case s of [] \<Rightarrow> [] | c # cs \<Rightarrow> if p c then [cs] else [])"
| "remainders (Then a b) = (\<lambda>s. concat (map (remainders b) (remainders a s)))"
| "remainders (OneOrMore a) = (\<lambda>s. plus_iter (remainders a) (Suc (length s)) s)"
| "remainders (Times n a) = (\<lambda>s. times_iter (remainders a) n s)"

definition regex_test :: "regex \<Rightarrow> string \<Rightarrow> bool" where
  "regex_test r s = ([] \<in> set (remainders r s))"

text \<open>
  \<open>\s\<close> on 8-bit code units: tab, line feed, vertical tab, form feed,
  carriage return, space, no-break space.
\<close>

definition is_space :: "char \<Rightarrow> bool" where
  "is_space c = (c \<in> set [CHR 0x09, CHR 0x0A, CHR 0x0B, CHR 0x0C, CHR 0x0D, CHR 0x20, CHR 0xA0])"

text \<open>\<open>[^\s@]\<close>.\<close>

definition not_space_at :: "char \<Rightarrow> bool" where
  "not_space_at c = (\<not> is_space c \<and> c \<noteq> CHR ''@'')"

text \<open>\<open>/^[^\s@]+@[^\s@]+\.[^\s@]+$/\<close>.\<close>

definition emailRegex :: regex where
  "emailRegex =
     Then (OneOrMore (Class not_space_at))
       (Then (Class (\<lambda>c. c = CHR ''@''))
          (Then (OneOrMore (Class not_space_at))
             (Then (Class (\<lambda>c. c = CHR ''.''))
                (OneOrMore (Class not_space_at)))))"

text \<open>The classes of the UUID pattern under the \<open>i\<close> flag.\<close>

definition hex_digit :: "char \<Rightarrow> bool" where
  "hex_digit c = (c \<in> set ''0123456789abcdefABCDEF'')"

definition version_digit :: "char \<Rightarrow> bool" where
  "version_digit c = (c \<in> set ''12345'')"

definition variant_digit :: "char \<Rightarrow> bool" where
  "variant_digit c = (c \<in> set ''89abAB'')"

definition dash :: "char \<Rightarrow> bool" where
  "dash c = (c = CHR ''-'')"

text \<open>
  \<open>/^[0-9a-f]{8}-[0-9a-f]{4}-[1-5][0-9a-f]{3}-[89ab][0-9a-f]{3}-[0-9a-f]{12}$/i\<close>.
\<close>

definition uuidRegex :: regex where
  "uuidRegex =
     Then (Times 8 (Class hex_digit))
       (Then (Class dash)
          (Then (Times 4 (Class hex_digit))
             (Then (Class dash)
                (Then (Class version_digit)
                   (Then (Times 3 (Class hex_digit))
                      (Then (Class dash)
                         (Then (Class variant_digit)
                            (Then (Times 3 (Class hex_digit))
                               (Then (Class dash)
                                  (Times 12 (Class hex_digit)))))))))))"

text \<open>
  \<open>validators.email(value, fieldName = 'email')\<close> and
  \<open>validators.uuid(value, fieldName)\<close>: return nothing, or throw.
\<close>

definition validators_email :: "string \<Rightarrow> string option \<Rightarrow> int \<Rightarrow> thrown + unit" where
  "validators_email v fieldName now =
     (let f = (case fieldName of None \<Rightarrow> ''email'' | Some n \<Rightarrow> n) in
      if \<not> regex_test emailRegex v then
        Inl (ThrownApplicationError
               (new_ApplicationError VALIDATION_ERROR (f @ '' must be a valid email address'')
                  (Some (JObj [(''field'', JStr f), (''value'', JStr v)])) now))
      else Inr ())"

definition validators_uuid :: "string \<Rightarrow> string \<Rightarrow> int \<Rightarrow> thrown + unit" where
  "validators_uuid v fieldName now =
     (if \<not> regex_test uuidRegex v then
        Inl (ThrownApplicationError
               (new_ApplicationError VALIDATION_ERROR (fieldName @ '' must be a valid UUID'')
                  (Some (JObj [(''field'', JStr fieldName), (''value'', JStr v)])) now))
      else Inr ())"

text \<open>The field name an error's details carry, if any.\<close>

definition details_field :: "thrown \<Rightarrow> json option" where
  "details_field t =
     (case t of
        ThrownApplicationError e \<Rightarrow>
          (case details e of None \<Rightarrow> None | Some d \<Rightarrow> field ''field'' d)
      | _ \<Rightarrow> None)"

text \<open>The kinds of the validation family.\<close>

definition validation_family :: "thrown \<Rightarrow> bool" where
  "validation_family t =
     (case t of
        ThrownApplicationError e \<Rightarrow>
          code e \<in> set [VALIDATION_ERROR, INVALID_INPUT, MISSING_REQUIRED_FIELD]
      | _ \<Rightarrow> False)"

text \<open>
  An operation for worked examples: an upstream that is down at every call.
\<close>

definition alwaysDown :: "nat \<Rightarrow> thrown + json" where
  "alwaysDown n = Inl (ThrownError ''upstream unavailable'')"

text \<open>
  A well-formed version-4 UUID in the textual form of RFC 4122, by position:
  36 characters, hyphens at offsets 8, 13, 18 and 23, the version digit
  \<open>4\<close> at offset 14, a variant digit \<open>8\<close>, \<open>9\<close>, \<open>a\<close> or \<open>b\<close> at
  offset 19 (10xx in binary), hexadecimal digits elsewhere, in either case.
\<close>

definition rfc_hexDigit :: "char \<Rightarrow> bool" where
  "rfc_hexDigit c = (c \<in> set ''0123456789'' \<or> c \<in> set ''abcdef'' \<or> c \<in> set ''ABCDEF'')"

definition uuid_v4_wellformed :: "string \<Rightarrow> bool" where
  "uuid_v4_wellformed s =
     (length s = 36
      \<and> list_all rfc_hexDigit (take 8 s) \<and> s ! 8 = CHR ''-''
      \<and> list_all rfc_hexDigit (take 4 (drop 9 s)) \<and> s ! 13 = CHR ''-''
      \<and> s ! 14 = CHR ''4''
      \<and> list_all rfc_hexDigit (take 3 (drop 15 s)) \<and> s ! 18 = CHR ''-''
      \<and> s ! 19 \<in> set ''89abAB''
      \<and> list_all rfc_hexDigit (take 3 (drop 20 s)) \<and> s ! 23 = CHR ''-''
      \<and> list_all rfc_hexDigit (drop 24 s))"

section \<open>Properties\<close>

text \<open>
  C4. Every error kind of the enumeration sits in exactly one row of the
  section 4.2 table, and \<open>getStatusCodeFromErrorCode\<close> returns that row's
  status (401 for Unauthorized and SessionExpired, 404 for RecordNotFound, 429
  for RateLimited, 408 for Timeout, 503 for ApiUnavailable, 500 for the
  DatabaseError group). For an \<open>ApplicationError\<close> of any kind,
  \<open>handleApiError\<close> answers with that status and the body
  \<open>{error: {code, message, details?, timestamp}}\<close> built from the error's own
  fields.
\<close>

theorem status_mapping_total:
  "table_statuses k = [getStatusCodeFromErrorCode k]
   \<and> status (handleApiError (ThrownApplicationError e) now)
       = getStatusCodeFromErrorCode (code e)
   \<and> body (handleApiError (ThrownApplicationError e) now)
       = JsonBody (JObj [(''error'',
           JObj ([(''code'', JStr (code_string (code e))), (''message'', JStr (message e))]
                 @ (case details e of None \<Rightarrow> [] | Some d \<Rightarrow> [(''details'', d)])
                 @ [(''timestamp'', JDate (timestamp e))]))])"
proof -
  have "table_statuses k = [getStatusCodeFromErrorCode k]"
    by (cases k) (simp_all add: table_statuses_def status_table_4_2_def)
  then show ?thesis
    by (simp add: handleApiError_def Response_json_def error_envelope_def)
qed

subsection \<open>Fixed-window limiter\<close>

lemma cleanup_live: "st key = Some r \<Longrightarrow> \<not> resetTime r < now \<Longrightarrow> cleanup now st key = Some r"
  by (simp add: cleanup_def)

lemma cleanup_expired: "st key = Some r \<Longrightarrow> resetTime r < now \<Longrightarrow> cleanup now st key = None"
  by (simp add: cleanup_def)

lemma cleanup_none: "st key = None \<Longrightarrow> cleanup now st key = None"
  by (simp add: cleanup_def)

lemma check_in_window:
  assumes "keyGenerator cfg req = Inr key" "st key = Some r" "\<not> resetTime r < now"
  shows "RateLimiter_check cfg req now st =
    (Inr \<lparr>allowed = count r < maxRequests cfg,
          remaining = max 0 (maxRequests cfg - count r - 1),
          res_resetTime = resetTime r\<rparr>,
     if count r < maxRequests cfg
     then (cleanup now st)(key \<mapsto> r\<lparr>count := count r + 1\<rparr>)
     else cleanup now st)"
  using assms by (simp add: RateLimiter_check_def Let_def cleanup_live)

lemma check_fresh:
  assumes "keyGenerator cfg req = Inr key"
    and "case st key of None \<Rightarrow> True | Some r \<Rightarrow> resetTime r < now"
  shows "RateLimiter_check cfg req now st =
    (Inr \<lparr>allowed = 0 < maxRequests cfg,
          remaining = max 0 (maxRequests cfg - 1),
          res_resetTime = now + windowMs cfg\<rparr>,
     if 0 < maxRequests cfg
     then (cleanup now st)(key \<mapsto> \<lparr>count = 1, resetTime = now + windowMs cfg\<rparr>)
     else cleanup now st)"
proof -
  have "cleanup now st key = None"
    using assms(2) by (auto simp: cleanup_def split: option.splits)
  then show ?thesis using assms(1)
    by (simp add: RateLimiter_check_def Let_def)
qed

lemma run_in_window:
  assumes "keyGenerator cfg req = Inr key"
  shows "st key = Some r \<Longrightarrow> list_all (\<lambda>t. t \<le> resetTime r) ts \<Longrightarrow>
     map admitted (fst (run_checks cfg req ts st))
       = replicate (min (length ts) (nat (maxRequests cfg - count r))) True
         @ replicate (length ts - nat (maxRequests cfg - count r)) False
     \<and> snd (run_checks cfg req ts st) key
       = Some (r\<lparr>count := (if count r < maxRequests cfg
                            then min (count r + int (length ts)) (maxRequests cfg)
                            else count r)\<rparr>)"
proof (induction ts arbitrary: st r)
  case Nil
  then show ?case by simp
next
  case (Cons t ts)
  have live: "\<not> resetTime r < t" using Cons.prems(2) by simp
  note chk = check_in_window[where st=st and r=r and now=t, OF assms Cons.prems(1) live]
  show ?case
  proof (cases "count r < maxRequests cfg")
    case True
    define r' where "r' = r\<lparr>count := count r + 1\<rparr>"
    define st' where "st' = (cleanup t st)(key \<mapsto> r')"
    have k: "st' key = Some r'" by (simp add: st'_def)
    have w: "list_all (\<lambda>t. t \<le> resetTime r') ts" using Cons.prems(2) by (simp add: r'_def)
    have step: "run_checks cfg req (t # ts) st =
        (Inr \<lparr>allowed = True, remaining = max 0 (maxRequests cfg - count r - 1),
              res_resetTime = resetTime r\<rparr> # fst (run_checks cfg req ts st'),
         snd (run_checks cfg req ts st'))"
      using chk True by (simp add: split_def st'_def r'_def)
    have n1: "nat (maxRequests cfg - count r) = Suc (nat (maxRequests cfg - count r'))"
      using True by (simp add: r'_def)
    from Cons.IH[of st' r', OF k w] have
      ih1: "map admitted (fst (run_checks cfg req ts st'))
         = replicate (min (length ts) (nat (maxRequests cfg - count r'))) True
           @ replicate (length ts - nat (maxRequests cfg - count r')) False"
      and ih2: "snd (run_checks cfg req ts st') key
         = Some (r'\<lparr>count := (if count r' < maxRequests cfg
                            then min (count r' + int (length ts)) (maxRequests cfg)
                            else count r')\<rparr>)"
      by simp_all
    have a: "map admitted (fst (run_checks cfg req (t # ts) st))
       = replicate (min (length (t # ts)) (nat (maxRequests cfg - count r))) True
         @ replicate (length (t # ts) - nat (maxRequests cfg - count r)) False"
      unfolding step by (simp add: ih1 n1)
    have b: "snd (run_checks cfg req (t # ts) st) key
       = Some (r\<lparr>count := (if count r < maxRequests cfg
                            then min (count r + int (length (t # ts))) (maxRequests cfg)
                            else count r)\<rparr>)"
    proof -
      have cnt: "(if count r' < maxRequests cfg
                  then min (count r' + int (length ts)) (maxRequests cfg) else count r')
               = min (count r + int (length (t # ts))) (maxRequests cfg)"
      proof -
        have "\<And>n::int. 0 \<le> n \<Longrightarrow>
            (if count r + 1 < maxRequests cfg
             then min (count r + 1 + n) (maxRequests cfg) else count r + 1)
            = min (count r + (1 + n)) (maxRequests cfg)"
          using True by (auto simp: min_def)
        from this[of "int (length ts)"] True show ?thesis
          by (simp add: r'_def add.assoc)
      qed
      show ?thesis unfolding step using True by (simp add: ih2 cnt) (simp add: r'_def)
    qed
    from a b show ?thesis by blast
  next
    case False
    define st' where "st' = cleanup t st"
    have k: "st' key = Some r" using Cons.prems(1) live by (simp add: cleanup_live st'_def)
    have w: "list_all (\<lambda>t. t \<le> resetTime r) ts" using Cons.prems(2) by simp
    have step: "run_checks cfg req (t # ts) st =
        (Inr \<lparr>allowed = False, remaining = max 0 (maxRequests cfg - count r - 1),
              res_resetTime = resetTime r\<rparr> # fst (run_checks cfg req ts st'),
         snd (run_checks cfg req ts st'))"
      using chk False by (simp add: split_def st'_def)
    have n0: "nat (maxRequests cfg - count r) = 0" using False by simp
    from Cons.IH[of st' r, OF k w] have
      ih1: "map admitted (fst (run_checks cfg req ts st'))
         = replicate (min (length ts) (nat (maxRequests cfg - count r))) True
           @ replicate (length ts - nat (maxRequests cfg - count r)) False"
      and ih2: "snd (run_checks cfg req ts st') key
         = Some (r\<lparr>count := (if count r < maxRequests cfg
                            then min (count r + int (length ts)) (maxRequests cfg)
                            else count r)\<rparr>)"
      by simp_all
    have a: "map admitted (fst (run_checks cfg req (t # ts) st))
       = replicate (min (length (t # ts)) (nat (maxRequests cfg - count r))) True
         @ replicate (length (t # ts) - nat (maxRequests cfg - count r)) False"
      unfolding step by (simp add: ih1 n0)
    have b: "snd (run_checks cfg req (t # ts) st) key
       = Some (r\<lparr>count := (if count r < maxRequests cfg
                            then min (count r + int (length (t # ts))) (maxRequests cfg)
                            else count r)\<rparr>)"
      unfolding step using False by (simp add: ih2)
    from a b show ?thesis by blast
  qed
qed


lemma run_never:
  assumes "keyGenerator cfg req = Inr key" and "maxRequests cfg \<le> 0"
  shows "st key = None \<Longrightarrow>
     map admitted (fst (run_checks cfg req ts st)) = replicate (length ts) False
     \<and> snd (run_checks cfg req ts st) key = None"
proof (induction ts arbitrary: st)
  case Nil
  then show ?case by simp
next
  case (Cons t ts)
  have f: "case st key of None \<Rightarrow> True | Some r \<Rightarrow> resetTime r < t"
    using Cons.prems by simp
  have k: "cleanup t st key = None" using Cons.prems by (simp add: cleanup_none)
  have step: "run_checks cfg req (t # ts) st =
      (Inr \<lparr>allowed = False, remaining = max 0 (maxRequests cfg - 1),
            res_resetTime = t + windowMs cfg\<rparr> # fst (run_checks cfg req ts (cleanup t st)),
       snd (run_checks cfg req ts (cleanup t st)))"
    using check_fresh[where st=st and now=t, OF assms(1) f] assms(2) by (simp add: split_def)
  from Cons.IH[of "cleanup t st", OF k] show ?case
    unfolding step by simp
qed

text \<open>
  C3. Let a window for a key start with a check at \<open>t0\<close> (no record, or
  an expired one), and let further checks follow at readings that have not
  passed the stored \<open>resetTime = t0 + windowMs\<close>. Then exactly the first
  \<open>maxRequests\<close> checks are admitted and every later one is rejected; the
  stored count is the number of admissions; once it has reached
  \<open>maxRequests\<close>, a check inside the window is rejected and leaves the
  record as it is; and the first check after \<open>resetTime\<close> starts a fresh
  window from count 0, with \<open>resetTime\<close> one window after that check.
\<close>

theorem fixed_window_saturation:
  assumes key: "keyGenerator cfg req = Inr key"
    and start: "case st key of None \<Rightarrow> True | Some r \<Rightarrow> resetTime r < t0"
    and window: "list_all (\<lambda>t. t \<le> t0 + windowMs cfg) ts"
  shows "map admitted (fst (run_checks cfg req (t0 # ts) st))
           = replicate (min (Suc (length ts)) (nat (maxRequests cfg))) True
             @ replicate (Suc (length ts) - nat (maxRequests cfg)) False
       \<and> (0 < maxRequests cfg \<longrightarrow>
            snd (run_checks cfg req (t0 # ts) st) key
              = Some \<lparr>count = min (1 + int (length ts)) (maxRequests cfg),
                      resetTime = t0 + windowMs cfg\<rparr>)
       \<and> (0 < maxRequests cfg \<and> maxRequests cfg \<le> 1 + int (length ts)
            \<and> t \<le> t0 + windowMs cfg \<longrightarrow>
            map admitted [fst (RateLimiter_check cfg req t (snd (run_checks cfg req (t0 # ts) st)))]
              = [False]
            \<and> snd (RateLimiter_check cfg req t (snd (run_checks cfg req (t0 # ts) st))) key
              = snd (run_checks cfg req (t0 # ts) st) key)
       \<and> (t0 + windowMs cfg < t \<longrightarrow>
            fst (RateLimiter_check cfg req t (snd (run_checks cfg req (t0 # ts) st)))
              = Inr \<lparr>allowed = 0 < maxRequests cfg,
                     remaining = max 0 (maxRequests cfg - 1),
                     res_resetTime = t + windowMs cfg\<rparr>
            \<and> snd (RateLimiter_check cfg req t (snd (run_checks cfg req (t0 # ts) st))) key
              = (if 0 < maxRequests cfg
                 then Some \<lparr>count = 0 + 1, resetTime = t + windowMs cfg\<rparr> else None))"
proof (cases "0 < maxRequests cfg")
  case True
  define r1 where "r1 = \<lparr>count = 1, resetTime = t0 + windowMs cfg\<rparr>"
  define st1 where "st1 = (cleanup t0 st)(key \<mapsto> r1)"
  define final where "final = snd (run_checks cfg req (t0 # ts) st)"
  have k: "st1 key = Some r1" by (simp add: st1_def)
  have w: "list_all (\<lambda>t. t \<le> resetTime r1) ts" using window by (simp add: r1_def)
  have step: "run_checks cfg req (t0 # ts) st =
      (Inr \<lparr>allowed = True, remaining = max 0 (maxRequests cfg - 1),
            res_resetTime = t0 + windowMs cfg\<rparr> # fst (run_checks cfg req ts st1),
       snd (run_checks cfg req ts st1))"
    using check_fresh[where st=st and now=t0, OF key start] True
    by (simp add: split_def st1_def r1_def)
  from run_in_window[where st=st1 and r=r1 and ts=ts, OF key k w] have
    rw1: "map admitted (fst (run_checks cfg req ts st1))
       = replicate (min (length ts) (nat (maxRequests cfg - 1))) True
         @ replicate (length ts - nat (maxRequests cfg - 1)) False"
    and rw2: "snd (run_checks cfg req ts st1) key
       = Some (r1\<lparr>count := (if 1 < maxRequests cfg
                            then min (1 + int (length ts)) (maxRequests cfg)
                            else 1)\<rparr>)"
    by (simp_all add: r1_def)
  have n1: "nat (maxRequests cfg) = Suc (nat (maxRequests cfg - 1))" using True by simp
  have a: "map admitted (fst (run_checks cfg req (t0 # ts) st))
           = replicate (min (Suc (length ts)) (nat (maxRequests cfg))) True
             @ replicate (Suc (length ts) - nat (maxRequests cfg)) False"
    unfolding step by (simp add: rw1 n1)
  have fin: "final key = Some \<lparr>count = min (1 + int (length ts)) (maxRequests cfg),
                      resetTime = t0 + windowMs cfg\<rparr>"
  proof -
    have "\<And>n::int. 0 \<le> n \<Longrightarrow>
        (if 1 < maxRequests cfg then min (1 + n) (maxRequests cfg) else 1)
        = min (1 + n) (maxRequests cfg)"
      using True by (auto simp: min_def)
    from this[of "int (length ts)"] have cnt:
      "(if 1 < maxRequests cfg then min (1 + int (length ts)) (maxRequests cfg) else 1)
        = min (1 + int (length ts)) (maxRequests cfg)"
      by simp
    show ?thesis unfolding final_def step by (simp add: rw2 cnt) (simp add: r1_def)
  qed
  have c: "maxRequests cfg \<le> 1 + int (length ts) \<Longrightarrow> t \<le> t0 + windowMs cfg \<Longrightarrow>
      map admitted [fst (RateLimiter_check cfg req t final)] = [False]
      \<and> snd (RateLimiter_check cfg req t final) key = final key"
  proof -
    assume sat: "maxRequests cfg \<le> 1 + int (length ts)" and inw: "t \<le> t0 + windowMs cfg"
    have live: "\<not> resetTime \<lparr>count = min (1 + int (length ts)) (maxRequests cfg),
                      resetTime = t0 + windowMs cfg\<rparr> < t" using inw by simp
    show ?thesis
      using check_in_window[where st=final and now=t, OF key fin live] sat fin inw
      by (simp add: cleanup_def)
  qed
  have d: "t0 + windowMs cfg < t \<Longrightarrow>
      fst (RateLimiter_check cfg req t final)
              = Inr \<lparr>allowed = 0 < maxRequests cfg,
                     remaining = max 0 (maxRequests cfg - 1),
                     res_resetTime = t + windowMs cfg\<rparr>
      \<and> snd (RateLimiter_check cfg req t final) key
              = (if 0 < maxRequests cfg
                 then Some \<lparr>count = 0 + 1, resetTime = t + windowMs cfg\<rparr> else None)"
  proof -
    assume past: "t0 + windowMs cfg < t"
    have f: "case final key of None \<Rightarrow> True | Some r \<Rightarrow> resetTime r < t"
      using fin past by simp
    show ?thesis
      using check_fresh[where st=final and now=t, OF key f] True by simp
  qed
  from a fin c d True show ?thesis unfolding final_def by blast
next
  case False
  define st1 where "st1 = cleanup t0 st"
  define final where "final = snd (run_checks cfg req (t0 # ts) st)"
  have le: "maxRequests cfg \<le> 0" using False by simp
  have k: "st1 key = None" using start by (auto simp: st1_def cleanup_def split: option.splits)
  have step: "run_checks cfg req (t0 # ts) st =
      (Inr \<lparr>allowed = False, remaining = max 0 (maxRequests cfg - 1),
            res_resetTime = t0 + windowMs cfg\<rparr> # fst (run_checks cfg req ts st1),
       snd (run_checks cfg req ts st1))"
    using check_fresh[where st=st and now=t0, OF key start] False
    by (simp add: split_def st1_def)
  from run_never[where st=st1 and ts=ts, OF key le k] have
    rn1: "map admitted (fst (run_checks cfg req ts st1)) = replicate (length ts) False"
    and rn2: "snd (run_checks cfg req ts st1) key = None"
    by simp_all
  have n0: "nat (maxRequests cfg) = 0" using False by simp
  have a: "map admitted (fst (run_checks cfg req (t0 # ts) st))
           = replicate (min (Suc (length ts)) (nat (maxRequests cfg))) True
             @ replicate (Suc (length ts) - nat (maxRequests cfg)) False"
    unfolding step by (simp add: rn1 n0)
  have fin: "final key = None" unfolding final_def step by (simp add: rn2)
  have d: "fst (RateLimiter_check cfg req t final)
              = Inr \<lparr>allowed = 0 < maxRequests cfg,
                     remaining = max 0 (maxRequests cfg - 1),
                     res_resetTime = t + windowMs cfg\<rparr>
      \<and> snd (RateLimiter_check cfg req t final) key
              = (if 0 < maxRequests cfg
                 then Some \<lparr>count = 0 + 1, resetTime = t + windowMs cfg\<rparr> else None)"
  proof -
    have f: "case final key of None \<Rightarrow> True | Some r \<Rightarrow> resetTime r < t"
      using fin by simp
    show ?thesis
      using check_fresh[where st=final and now=t, OF key f] False fin
      by (simp add: cleanup_none)
  qed
  from a d False show ?thesis unfolding final_def by blast
qed

theorem fixed_window_saturation_witness:
  "keyGenerator twoPerSecond localGet = Inr ''rate_limit:10.0.0.7''
   \<and> list_all (\<lambda>t. t \<le> 0 + windowMs twoPerSecond) [10, 1000]
   \<and> map admitted (fst (run_checks twoPerSecond localGet [0, 10, 1000] Map.empty))
       = [True, True, False]
   \<and> snd (run_checks twoPerSecond localGet [0, 10, 1000] Map.empty) ''rate_limit:10.0.0.7''
       = Some \<lparr>count = 2, resetTime = 1000\<rparr>
   \<and> fst (RateLimiter_check twoPerSecond localGet 1001
          (snd (run_checks twoPerSecond localGet [0, 10, 1000] Map.empty)))
       = Inr \<lparr>allowed = True, remaining = 1, res_resetTime = 2001\<rparr>"
proof -
  have key: "keyGenerator twoPerSecond localGet = Inr ''rate_limit:10.0.0.7''"
    by (simp add: twoPerSecond_def localGet_def default_key_def defaultKeyGenerator_def
          headers_get_def)
  have start: "case (Map.empty :: store) ''rate_limit:10.0.0.7'' of
                 None \<Rightarrow> True | Some r \<Rightarrow> resetTime r < 0"
    by simp
  have window: "list_all (\<lambda>t. t \<le> 0 + windowMs twoPerSecond) [10, 1000]"
    by (simp add: twoPerSecond_def)
  have m: "maxRequests twoPerSecond = 2" "windowMs twoPerSecond = 1000"
    by (simp_all add: twoPerSecond_def)
  have two: "replicate (min (Suc (length [10, 1000 :: int])) (nat 2)) True
             @ replicate (Suc (length [10, 1000 :: int]) - nat 2) False = [True, True, False]"
    by (simp add: numeral_2_eq_2)
  from fixed_window_saturation [OF key start window, of 1001] key window two
  show ?thesis by (simp add: m)
qed

subsection \<open>Sliding-window limiter\<close>

lemma sliding_check_unfold:
  assumes "keyGenerator cfg req = Inr key"
  shows "SlidingWindow_check cfg req now table =
     (Inr \<lparr>sw_allowed =
             int (length (filter (\<lambda>ti. now - ti < windowMs cfg) (stored_times table key)))
               < maxRequests cfg,
           sw_remaining =
             max 0 (maxRequests cfg
                    - int (length (filter (\<lambda>ti. now - ti < windowMs cfg) (stored_times table key)))
                    - (if int (length (filter (\<lambda>ti. now - ti < windowMs cfg)
                                         (stored_times table key))) < maxRequests cfg
                       then 1 else 0))\<rparr>,
      if int (length (filter (\<lambda>ti. now - ti < windowMs cfg) (stored_times table key)))
           < maxRequests cfg
      then table(key \<mapsto> filter (\<lambda>ti. now - ti < windowMs cfg) (stored_times table key) @ [now])
      else table)"
proof -
  have eq: "(\<lambda>timestamp. timestamp > now - windowMs cfg) = (\<lambda>ti. now - ti < windowMs cfg)"
    by (rule ext) arith
  show ?thesis
    using assms by (simp add: SlidingWindow_check_def Let_def stored_times_def eq)
qed

lemma filter_window_mono:
  assumes "t1 \<le> (t::int)"
  shows "filter (\<lambda>ti. t - ti < w) (filter (\<lambda>ti. t1 - ti < w) xs) = filter (\<lambda>ti. t - ti < w) xs"
proof -
  have "\<And>ti. t - ti < w \<Longrightarrow> t1 - ti < w" using assms by arith
  then show ?thesis by (induction xs) auto
qed

lemma sliding_run_invariant:
  assumes key: "keyGenerator cfg req = Inr key"
  shows "sorted (ts @ [t]) \<Longrightarrow>
     filter (\<lambda>ti. t - ti < windowMs cfg)
        (stored_times (snd (sliding_run cfg req ts table)) key)
     = filter (\<lambda>ti. t - ti < windowMs cfg)
        (stored_times table key @ admission_times ts (fst (sliding_run cfg req ts table)))"
proof (induction ts arbitrary: table)
  case Nil
  then show ?case by (simp add: admission_times_def)
next
  case (Cons t1 ts)
  have le: "t1 \<le> t" using Cons.prems by (simp add: sorted_append)
  have srt: "sorted (ts @ [t])" using Cons.prems by simp
  define kept where "kept = filter (\<lambda>ti. t1 - ti < windowMs cfg) (stored_times table key)"
  note chk = sliding_check_unfold[where now=t1 and table=table, OF key, folded kept_def]
  show ?case
  proof (cases "int (length kept) < maxRequests cfg")
    case True
    define table' where "table' = table(key \<mapsto> kept @ [t1])"
    have st': "stored_times table' key = kept @ [t1]" by (simp add: table'_def stored_times_def)
    have step: "sliding_run cfg req (t1 # ts) table =
        (fst (SlidingWindow_check cfg req t1 table) # fst (sliding_run cfg req ts table'),
         snd (sliding_run cfg req ts table'))"
      using chk True by (simp add: split_def table'_def)
    have adm: "sw_admitted (fst (SlidingWindow_check cfg req t1 table))"
      using chk True by simp
    have at: "admission_times (t1 # ts) (fst (sliding_run cfg req (t1 # ts) table))
        = t1 # admission_times ts (fst (sliding_run cfg req ts table'))"
      unfolding step using adm by (simp add: admission_times_def)
    have k2: "filter (\<lambda>ti. t - ti < windowMs cfg) kept
        = filter (\<lambda>ti. t - ti < windowMs cfg) (stored_times table key)"
      unfolding kept_def by (rule filter_window_mono[OF le])
    have lhs: "filter (\<lambda>ti. t - ti < windowMs cfg)
            (stored_times (snd (sliding_run cfg req (t1 # ts) table)) key)
        = filter (\<lambda>ti. t - ti < windowMs cfg) kept
          @ filter (\<lambda>ti. t - ti < windowMs cfg)
              (t1 # admission_times ts (fst (sliding_run cfg req ts table')))"
      unfolding step using Cons.IH[OF srt, of table'] by (simp add: st')
    show ?thesis
      unfolding at by (simp only: lhs k2 filter_append)
  next
    case False
    have step: "sliding_run cfg req (t1 # ts) table =
        (fst (SlidingWindow_check cfg req t1 table) # fst (sliding_run cfg req ts table),
         snd (sliding_run cfg req ts table))"
      using chk False by (simp add: split_def)
    have adm: "\<not> sw_admitted (fst (SlidingWindow_check cfg req t1 table))"
      using chk False by simp
    have at: "admission_times (t1 # ts) (fst (sliding_run cfg req (t1 # ts) table))
        = admission_times ts (fst (sliding_run cfg req ts table))"
      unfolding step using adm by (simp add: admission_times_def)
    show ?thesis
      unfolding at unfolding step using Cons.IH[OF srt, of table] by simp
  qed
qed


text \<open>
  C7. A stored admission at \<open>t\<^sub>i\<close> counts against a check at \<open>t\<close> exactly when
  \<open>t - t\<^sub>i < windowMs\<close>; the check is admitted exactly when fewer than
  \<open>maxRequests\<close> stored admissions count; on admission the table keeps the
  counting timestamps followed by \<open>t\<close>, on rejection it is left as it is.
  Over a run from an empty entry with a clock that does not go backwards, the
  stored admissions that count are the prior admissions that count.
\<close>

theorem sliding_window_admission:
  assumes key: "keyGenerator cfg req = Inr key"
  shows "sw_admitted (fst (SlidingWindow_check cfg req now table))
           = (int (length (filter (\<lambda>ti. now - ti < windowMs cfg) (stored_times table key)))
                < maxRequests cfg)
       \<and> snd (SlidingWindow_check cfg req now table)
           = (if sw_admitted (fst (SlidingWindow_check cfg req now table))
              then table(key \<mapsto>
                     filter (\<lambda>ti. now - ti < windowMs cfg) (stored_times table key) @ [now])
              else table)
       \<and> (sorted (ts @ [now]) \<and> table key = None \<longrightarrow>
            sw_admitted (fst (SlidingWindow_check cfg req now (snd (sliding_run cfg req ts table))))
              = (int (length (filter (\<lambda>ti. now - ti < windowMs cfg)
                                (admission_times ts (fst (sliding_run cfg req ts table)))))
                   < maxRequests cfg))"
proof -
  note u = sliding_check_unfold[OF key]
  have a: "sw_admitted (fst (SlidingWindow_check cfg req now table))
           = (int (length (filter (\<lambda>ti. now - ti < windowMs cfg) (stored_times table key)))
                < maxRequests cfg)"
    by (simp add: u)
  have b: "snd (SlidingWindow_check cfg req now table)
           = (if sw_admitted (fst (SlidingWindow_check cfg req now table))
              then table(key \<mapsto>
                     filter (\<lambda>ti. now - ti < windowMs cfg) (stored_times table key) @ [now])
              else table)"
    by (simp add: u)
  have c: "sw_admitted (fst (SlidingWindow_check cfg req now (snd (sliding_run cfg req ts table))))
              = (int (length (filter (\<lambda>ti. now - ti < windowMs cfg)
                                (admission_times ts (fst (sliding_run cfg req ts table)))))
                   < maxRequests cfg)"
    if srt: "sorted (ts @ [now])" and fresh: "table key = None"
  proof -
    have e: "stored_times table key = []" using fresh by (simp add: stored_times_def)
    from sliding_run_invariant[OF key srt, of table]
    have "filter (\<lambda>ti. now - ti < windowMs cfg)
             (stored_times (snd (sliding_run cfg req ts table)) key)
        = filter (\<lambda>ti. now - ti < windowMs cfg)
             (admission_times ts (fst (sliding_run cfg req ts table)))"
      by (simp add: e)
    then show ?thesis by (simp add: u)
  qed
  from a b c show ?thesis by blast
qed

theorem sliding_window_admission_witness:
  "keyGenerator twoPerSecond localGet = Inr ''rate_limit:10.0.0.7''
   \<and> sorted ([0, 10, 500] @ [1000 :: int])
   \<and> admission_times [0, 10, 500] (fst (sliding_run twoPerSecond localGet [0, 10, 500] Map.empty))
       = [0, 10]
   \<and> sw_admitted (fst (SlidingWindow_check twoPerSecond localGet 1000
          (snd (sliding_run twoPerSecond localGet [0, 10, 500] Map.empty))))
   \<and> stored_times (snd (SlidingWindow_check twoPerSecond localGet 1000
          (snd (sliding_run twoPerSecond localGet [0, 10, 500] Map.empty))))
        ''rate_limit:10.0.0.7'' = [10, 1000]"
proof -
  have key: "keyGenerator twoPerSecond localGet = Inr ''rate_limit:10.0.0.7''"
    by (simp add: twoPerSecond_def localGet_def default_key_def defaultKeyGenerator_def
          headers_get_def)
  have m: "maxRequests twoPerSecond = 2" "windowMs twoPerSecond = 1000"
    by (simp_all add: twoPerSecond_def)
  have c1: "SlidingWindow_check twoPerSecond localGet 0 Map.empty
      = (Inr \<lparr>sw_allowed = True, sw_remaining = 1\<rparr>, [''rate_limit:10.0.0.7'' \<mapsto> [0]])"
    by (simp add: sliding_check_unfold[OF key] m stored_times_def)
  have c2: "SlidingWindow_check twoPerSecond localGet 10 [''rate_limit:10.0.0.7'' \<mapsto> [0]]
      = (Inr \<lparr>sw_allowed = True, sw_remaining = 0\<rparr>, [''rate_limit:10.0.0.7'' \<mapsto> [0, 10]])"
    by (simp add: sliding_check_unfold[OF key] m stored_times_def)
  have c3: "SlidingWindow_check twoPerSecond localGet 500 [''rate_limit:10.0.0.7'' \<mapsto> [0, 10]]
      = (Inr \<lparr>sw_allowed = False, sw_remaining = 0\<rparr>, [''rate_limit:10.0.0.7'' \<mapsto> [0, 10]])"
    by (simp add: sliding_check_unfold[OF key] m stored_times_def)
  have run: "sliding_run twoPerSecond localGet [0, 10, 500] Map.empty
      = ([Inr \<lparr>sw_allowed = True, sw_remaining = 1\<rparr>,
          Inr \<lparr>sw_allowed = True, sw_remaining = 0\<rparr>,
          Inr \<lparr>sw_allowed = False, sw_remaining = 0\<rparr>],
         [''rate_limit:10.0.0.7'' \<mapsto> [0, 10]])"
    by (simp add: c1 c2 c3)
  have at: "admission_times [0, 10, 500]
       (fst (sliding_run twoPerSecond localGet [0, 10, 500] Map.empty)) = [0, 10]"
    unfolding run by (simp add: admission_times_def)
  have srt: "sorted ([0, 10, 500] @ [1000 :: int])" by simp
  from sliding_window_admission [OF key, of 1000
      "snd (sliding_run twoPerSecond localGet [0, 10, 500] Map.empty)" "[]"]
    sliding_window_admission [OF key, of 1000 Map.empty "[0, 10, 500]"]
    key srt at
  show ?thesis unfolding run by (simp add: m stored_times_def c1 c2 c3)
qed

subsection \<open>Request handler wrapper\<close>

lemma key_local: "keyGenerator twoPerSecond localGet = Inr ''rate_limit:10.0.0.7''"
  by (simp add: twoPerSecond_def localGet_def default_key_def defaultKeyGenerator_def
          headers_get_def)

lemma toString_small: "toString 2 = ''2''" "toString 1 = ''1''" "toString 0 = ''0''"
  by (simp_all add: toString_def show_nat.simps digit_char_def)

lemma first_check:
  "RateLimiter_check twoPerSecond localGet 0 Map.empty
     = (Inr \<lparr>allowed = True, remaining = 1, res_resetTime = 1000\<rparr>,
        [''rate_limit:10.0.0.7'' \<mapsto> \<lparr>count = 1, resetTime = 1000\<rparr>])"
proof -
  have c: "cleanup 0 Map.empty = Map.empty" by (simp add: cleanup_def)
  show ?thesis
    by (simp add: RateLimiter_check_def key_local Let_def c)
       (simp add: twoPerSecond_def)
qed

text \<open>
  The middleware answers with a response, never with null, whenever the
  limiter's \<open>check\<close> and \<open>getHeaders\<close> both return: 429 on rejection,
  the bodiless 200 on admission.
\<close>

lemma middleware_answers_whenever_limiter_returns:
  assumes "check lim req now st = (Inr res, st')"
    and "getHeaders lim (remaining res) (res_resetTime res) = Inr hs"
  shows "\<exists>r. createRateLimit lim req now st = (Inr (Some r), st')
             \<and> status r = (if allowed res then 200 else 429)"
  using assms by (simp add: createRateLimit_def)

text \<open>
  Identity resolution is reached exactly when the method check passes and the
  rate limiter, if one is configured, returns null.
\<close>

lemma authenticate_resolves:
  "list_ex (\<lambda>e. e = ResolvedIdentity (getAuthenticatedUser sess))
     (snd (authenticate_and_handle h opts req ps now sess))"
  by (cases "getAuthenticatedUser sess")
     (simp_all add: authenticate_and_handle_def requireAuth_def)

lemma calls_eq:
  "calls (createApiHandler h opts req ps now sess rid st)
     = fst (snd (try_block h opts req ps now sess st))"
  by (simp add: createApiHandler_def split: prod.splits sum.splits)

lemma identity_resolution_reached:
  "list_ex (\<lambda>e. e = ResolvedIdentity (getAuthenticatedUser sess))
       (calls (createApiHandler h opts req ps now sess rid st))
   = ((case opt_allowedMethods opts of None \<Rightarrow> True | Some ms \<Rightarrow> req_method req \<in> set ms)
      \<and> (case opt_rateLimiter opts of
            None \<Rightarrow> True
          | Some limiter \<Rightarrow> fst (limiter req now st) = Inr None))"
  using authenticate_resolves[of sess h opts req ps now]
  by (auto simp: calls_eq try_block_def validateMethod_def
      split: option.splits sum.splits prod.splits)

lemma authenticate_unresolved:
  assumes "opt_requireAuth opts"
    and "ResolvedIdentity None \<in> set (snd (authenticate_and_handle h opts req ps now sess))"
  shows "authenticate_and_handle h opts req ps now sess
     = (Inl (ThrownResponse
               (createErrorResponse ''UNAUTHORIZED'' ''Authentication required''
                  (Some JNull) 401 now)),
        [ResolvedIdentity None])"
  using assms
  by (cases "getAuthenticatedUser sess")
     (simp_all add: authenticate_and_handle_def requireAuth_def)

lemma try_block_unresolved:
  assumes "opt_requireAuth opts"
    and "ResolvedIdentity None \<in> set (fst (snd (try_block h opts req ps now sess st)))"
  shows "fst (try_block h opts req ps now sess st)
           = Inl (ThrownResponse
               (createErrorResponse ''UNAUTHORIZED'' ''Authentication required''
                  (Some JNull) 401 now))
       \<and> \<not> list_ex is_InvokedHandler (fst (snd (try_block h opts req ps now sess st)))"
proof -
  have m: "ResolvedIdentity None \<in> set (snd (authenticate_and_handle h opts req ps now sess))"
    using assms(2)
    by (auto simp: try_block_def split: option.splits sum.splits prod.splits)
  note a = authenticate_unresolved[OF assms(1) m]
  show ?thesis
    using assms(2)
    by (auto simp: try_block_def a split: option.splits sum.splits prod.splits)
qed

lemma authenticate_invoked:
  "authenticate_and_handle h opts req ps now sess = (r, evs) \<Longrightarrow>
   InvokedHandler ctx \<in> set evs \<Longrightarrow> r = h req ctx"
  by (auto simp: authenticate_and_handle_def split: sum.splits if_splits)

lemma try_block_invoked:
  "try_block h opts req ps now sess st = (r, evs, st') \<Longrightarrow>
   InvokedHandler ctx \<in> set evs \<Longrightarrow> r = h req ctx"
  by (auto simp: try_block_def split: option.splits sum.splits prod.splits
      dest: authenticate_invoked)

lemma createApiHandler_invoked:
  assumes "InvokedHandler ctx \<in> set (calls (createApiHandler h opts req ps now sess rid st))"
  shows "reply (createApiHandler h opts req ps now sess rid st)
     = (case h req ctx of Inr r \<Rightarrow> r | Inl error \<Rightarrow> catch_block error rid now)"
proof -
  obtain r evs st' where t: "try_block h opts req ps now sess st = (r, evs, st')"
    by (cases "try_block h opts req ps now sess st") auto
  have c: "calls (createApiHandler h opts req ps now sess rid st) = evs"
    by (simp add: createApiHandler_def t split: sum.splits)
  from assms c have "InvokedHandler ctx \<in> set evs" by simp
  from try_block_invoked[OF t this] have "r = h req ctx" .
  then show ?thesis
    by (simp add: createApiHandler_def t split: sum.splits)
qed

lemma error_code_of_createErrorResponse:
  "error_code_of (createErrorResponse c msg det st now) = Some (JStr c)"
  by (simp add: createErrorResponse_def Response_json_def error_code_of_def)

lemma status_createErrorResponse:
  "status (createErrorResponse c msg det st now) = st"
  by (simp add: createErrorResponse_def Response_json_def)

text \<open>
  C1 (the code at an admitted request). A GET from a fresh address against
  a wrapper that allows GET and uses \<open>createRateLimit\<close> over a
  two-per-second limiter: the limiter's check admits the request
  (\<open>allowed = true\<close>, one remaining), yet the wrapper's reply is the
  middleware's bodiless 200 response carrying the rate-limit headers, the only
  call made is the one to the rate limiter, and the domain handler, which
  would have returned the chat list, is not invoked.
\<close>

theorem admitted_request_never_reaches_handler:
  "fst (RateLimiter_check twoPerSecond localGet 0 Map.empty)
     = Inr \<lparr>allowed = True, remaining = 1, res_resetTime = 1000\<rparr>
   \<and> reply (createApiHandler okHandler limitedOptions localGet None 0 NoSession ''req_0_a'' Map.empty)
     = \<lparr>status = 200,
        headers = [(''X-RateLimit-Limit'', ''2''), (''X-RateLimit-Remaining'', ''1''),
                   (''X-RateLimit-Reset'', ''1''), (''X-RateLimit-Window'', ''1'')],
        body = NoBody\<rparr>
   \<and> calls (createApiHandler okHandler limitedOptions localGet None 0 NoSession ''req_0_a'' Map.empty)
     = [CalledRateLimiter]
   \<and> handler_invoked
        (createApiHandler okHandler limitedOptions localGet None 0 NoSession ''req_0_a'' Map.empty)
     = False
   \<and> okHandler localGet \<lparr>params = None, ctx_user = None\<rparr>
     = Inr (createSuccessResponse (JObj [(''chats'', JArr [])]) 0)"
proof -
  have hs: "RateLimiter_getHeaders twoPerSecond 1 1000
      = [(''X-RateLimit-Limit'', ''2''), (''X-RateLimit-Remaining'', ''1''),
         (''X-RateLimit-Reset'', ''1''), (''X-RateLimit-Window'', ''1'')]"
    by (simp add: RateLimiter_getHeaders_def twoPerSecond_def ceil_div_def toString_small)
  have mw: "createRateLimit (RateLimiter twoPerSecond) localGet 0 Map.empty
      = (Inr (Some \<lparr>status = 200,
            headers = [(''X-RateLimit-Limit'', ''2''), (''X-RateLimit-Remaining'', ''1''),
                   (''X-RateLimit-Reset'', ''1''), (''X-RateLimit-Window'', ''1'')],
            body = NoBody\<rparr>),
         [''rate_limit:10.0.0.7'' \<mapsto> \<lparr>count = 1, resetTime = 1000\<rparr>])"
    by (simp add: createRateLimit_def RateLimiter_def first_check hs)
  have m: "validateMethod localGet [''GET''] 0 = Inr ()"
    by (simp add: validateMethod_def localGet_def)
  have tb: "try_block okHandler limitedOptions localGet None 0 NoSession Map.empty
      = (Inr \<lparr>status = 200,
            headers = [(''X-RateLimit-Limit'', ''2''), (''X-RateLimit-Remaining'', ''1''),
                   (''X-RateLimit-Reset'', ''1''), (''X-RateLimit-Window'', ''1'')],
            body = NoBody\<rparr>, [CalledRateLimiter],
         [''rate_limit:10.0.0.7'' \<mapsto> \<lparr>count = 1, resetTime = 1000\<rparr>])"
    by (simp add: try_block_def limitedOptions_def m mw)
  show ?thesis
    by (simp add: createApiHandler_def tb first_check handler_invoked_def okHandler_def)
qed

text \<open>
  C2 (as amended). When the domain handler is invoked and throws an
  \<open>ApplicationError\<close>, of whatever kind, the wrapper's own \<open>catch\<close> block
  answers: status 500, \<open>error.code = INTERNAL_SERVER_ERROR\<close>, the error's
  message, and \<open>details = {requestId}\<close>. The error's kind plays no part.
  Only a thrown \<open>Response\<close> is returned as it is: a plain \<open>Error\<close> and
  any other thrown value also become a 500 \<open>INTERNAL_SERVER_ERROR\<close>
  response.
\<close>

theorem typed_error_from_handler:
  assumes "InvokedHandler ctx \<in> set (calls (createApiHandler h opts req ps now sess rid st))"
  shows "(h req ctx = Inl (ThrownApplicationError e) \<longrightarrow>
            reply (createApiHandler h opts req ps now sess rid st)
              = createErrorResponse ''INTERNAL_SERVER_ERROR'' (message e)
                  (Some (JObj [(''requestId'', JStr rid)])) 500 now
            \<and> status (reply (createApiHandler h opts req ps now sess rid st)) = 500
            \<and> error_code_of (reply (createApiHandler h opts req ps now sess rid st))
                = Some (JStr ''INTERNAL_SERVER_ERROR''))
       \<and> (h req ctx = Inl (ThrownResponse r) \<longrightarrow>
            reply (createApiHandler h opts req ps now sess rid st) = r)
       \<and> (h req ctx = Inl (ThrownError m) \<longrightarrow>
            reply (createApiHandler h opts req ps now sess rid st)
              = createErrorResponse ''INTERNAL_SERVER_ERROR'' m
                  (Some (JObj [(''requestId'', JStr rid)])) 500 now)
       \<and> (h req ctx = Inl (ThrownValue v) \<longrightarrow>
            reply (createApiHandler h opts req ps now sess rid st)
              = createErrorResponse ''INTERNAL_SERVER_ERROR'' ''An unexpected error occurred''
                  (Some (JObj [(''requestId'', JStr rid)])) 500 now)"
proof -
  note inv = createApiHandler_invoked[OF assms]
  have a: "reply (createApiHandler h opts req ps now sess rid st)
              = createErrorResponse ''INTERNAL_SERVER_ERROR'' (message e)
                  (Some (JObj [(''requestId'', JStr rid)])) 500 now
            \<and> status (reply (createApiHandler h opts req ps now sess rid st)) = 500
            \<and> error_code_of (reply (createApiHandler h opts req ps now sess rid st))
                = Some (JStr ''INTERNAL_SERVER_ERROR'')"
    if "h req ctx = Inl (ThrownApplicationError e)"
  proof -
    have r: "reply (createApiHandler h opts req ps now sess rid st)
           = createErrorResponse ''INTERNAL_SERVER_ERROR'' (message e)
               (Some (JObj [(''requestId'', JStr rid)])) 500 now"
      using inv that by (simp add: catch_block_def)
    show ?thesis
      unfolding r by (simp add: error_code_of_createErrorResponse status_createErrorResponse)
  qed
  have b: "reply (createApiHandler h opts req ps now sess rid st) = r"
    if "h req ctx = Inl (ThrownResponse r)"
    using inv that by (simp add: catch_block_def)
  have c: "reply (createApiHandler h opts req ps now sess rid st)
              = createErrorResponse ''INTERNAL_SERVER_ERROR'' m
                  (Some (JObj [(''requestId'', JStr rid)])) 500 now"
    if "h req ctx = Inl (ThrownError m)"
    using inv that by (simp add: catch_block_def)
  have d: "reply (createApiHandler h opts req ps now sess rid st)
              = createErrorResponse ''INTERNAL_SERVER_ERROR'' ''An unexpected error occurred''
                  (Some (JObj [(''requestId'', JStr rid)])) 500 now"
    if "h req ctx = Inl (ThrownValue v)"
    using inv that by (simp add: catch_block_def)
  from a b c d show ?thesis by blast
qed

theorem typed_error_from_handler_witness:
  "InvokedHandler \<lparr>params = None, ctx_user = None\<rparr>
      \<in> set (calls (createApiHandler notFoundHandler plainOptions localGet None 0 NoSession
                      ''req_0_a'' Map.empty))
   \<and> notFoundHandler localGet \<lparr>params = None, ctx_user = None\<rparr>
     = Inl (ThrownApplicationError
          \<lparr>code = RECORD_NOT_FOUND, message = ''Chat not found'', details = None,
           timestamp = 0, userId = None, requestId = None\<rparr>)
   \<and> reply (createApiHandler notFoundHandler plainOptions localGet None 0 NoSession
              ''req_0_a'' Map.empty)
     = createErrorResponse ''INTERNAL_SERVER_ERROR'' ''Chat not found''
         (Some (JObj [(''requestId'', JStr ''req_0_a'')])) 500 0
   \<and> InvokedHandler \<lparr>params = None, ctx_user = None\<rparr>
      \<in> set (calls (createApiHandler forbiddenHandler plainOptions localGet None 0 NoSession
                      ''req_0_a'' Map.empty))
   \<and> forbiddenHandler localGet \<lparr>params = None, ctx_user = None\<rparr>
     = Inl (ThrownResponse (createErrorResponse ''FORBIDDEN'' ''Not your chat'' None 403 0))
   \<and> reply (createApiHandler forbiddenHandler plainOptions localGet None 0 NoSession
              ''req_0_a'' Map.empty)
     = createErrorResponse ''FORBIDDEN'' ''Not your chat'' None 403 0
   \<and> status (reply (createApiHandler forbiddenHandler plainOptions localGet None 0 NoSession
              ''req_0_a'' Map.empty)) = 403"
proof -
  have c: "InvokedHandler \<lparr>params = None, ctx_user = None\<rparr>
      \<in> set (calls (createApiHandler notFoundHandler plainOptions localGet None 0 NoSession
                      ''req_0_a'' Map.empty))"
    by (simp add: createApiHandler_def try_block_def authenticate_and_handle_def
          plainOptions_def notFoundHandler_def)
  have t: "notFoundHandler localGet \<lparr>params = None, ctx_user = None\<rparr>
     = Inl (ThrownApplicationError
          \<lparr>code = RECORD_NOT_FOUND, message = ''Chat not found'', details = None,
           timestamp = 0, userId = None, requestId = None\<rparr>)"
    by (simp add: notFoundHandler_def new_ApplicationError_def)
  have c': "InvokedHandler \<lparr>params = None, ctx_user = None\<rparr>
      \<in> set (calls (createApiHandler forbiddenHandler plainOptions localGet None 0 NoSession
                      ''req_0_a'' Map.empty))"
    by (simp add: createApiHandler_def try_block_def authenticate_and_handle_def
          plainOptions_def forbiddenHandler_def)
  have t': "forbiddenHandler localGet \<lparr>params = None, ctx_user = None\<rparr>
     = Inl (ThrownResponse (createErrorResponse ''FORBIDDEN'' ''Not your chat'' None 403 0))"
    by (simp add: forbiddenHandler_def)
  from typed_error_from_handler [OF c] typed_error_from_handler [OF c'] c c' t t'
  show ?thesis
    by (simp add: status_createErrorResponse)
qed

text \<open>
  The claim as stated fails for a handler that throws RecordNotFound: the
  wrapper answers 500 with code \<open>INTERNAL_SERVER_ERROR\<close>, where
  \<open>handleApiError\<close> on the same error gives 404 with code
  \<open>RECORD_NOT_FOUND\<close>.
\<close>

theorem typed_error_rewrapped_counterexample:
  "calls (createApiHandler notFoundHandler plainOptions localGet None 0 NoSession
            ''req_0_a'' Map.empty)
     = [ResolvedIdentity None, InvokedHandler \<lparr>params = None, ctx_user = None\<rparr>]
   \<and> notFoundHandler localGet \<lparr>params = None, ctx_user = None\<rparr>
     = Inl (ThrownApplicationError (new_ApplicationError RECORD_NOT_FOUND ''Chat not found'' None 0))
   \<and> status (reply (createApiHandler notFoundHandler plainOptions localGet None 0 NoSession
                      ''req_0_a'' Map.empty)) = 500
   \<and> error_code_of (reply (createApiHandler notFoundHandler plainOptions localGet None 0
                      NoSession ''req_0_a'' Map.empty)) = Some (JStr ''INTERNAL_SERVER_ERROR'')
   \<and> status (handleApiError (ThrownApplicationError
               (new_ApplicationError RECORD_NOT_FOUND ''Chat not found'' None 0)) 0) = 404
   \<and> error_code_of (handleApiError (ThrownApplicationError
               (new_ApplicationError RECORD_NOT_FOUND ''Chat not found'' None 0)) 0)
     = Some (JStr ''RECORD_NOT_FOUND'')"
  by (simp add: createApiHandler_def try_block_def authenticate_and_handle_def
        catch_block_def createErrorResponse_def Response_json_def error_code_of_def
        plainOptions_def notFoundHandler_def new_ApplicationError_def handleApiError_def
        error_envelope_def)

text \<open>
  C9. Under \<open>requireAuth = true\<close>, whenever identity resolution yields no
  identity, the wrapper replies 401 with \<open>error.code = UNAUTHORIZED\<close> and
  the domain handler is not invoked.
\<close>

theorem unauthenticated_request_rejected:
  assumes "opt_requireAuth opts"
    and "ResolvedIdentity None \<in> set (calls (createApiHandler h opts req ps now sess rid st))"
  shows "status (reply (createApiHandler h opts req ps now sess rid st)) = 401
       \<and> error_code_of (reply (createApiHandler h opts req ps now sess rid st))
           = Some (JStr ''UNAUTHORIZED'')
       \<and> \<not> handler_invoked (createApiHandler h opts req ps now sess rid st)"
proof -
  from assms(2) have m:
    "ResolvedIdentity None \<in> set (fst (snd (try_block h opts req ps now sess st)))"
    by (simp add: calls_eq)
  note t = try_block_unresolved[OF assms(1) m]
  obtain evs st' where tb: "try_block h opts req ps now sess st
      = (Inl (ThrownResponse
               (createErrorResponse ''UNAUTHORIZED'' ''Authentication required''
                  (Some JNull) 401 now)), evs, st')"
    using t by (cases "try_block h opts req ps now sess st") auto
  have r: "reply (createApiHandler h opts req ps now sess rid st)
      = createErrorResponse ''UNAUTHORIZED'' ''Authentication required'' (Some JNull) 401 now"
    by (simp add: createApiHandler_def tb catch_block_def)
  have n: "\<not> handler_invoked (createApiHandler h opts req ps now sess rid st)"
    using t by (simp add: handler_invoked_def calls_eq)
  show ?thesis
    unfolding r using n
    by (simp add: error_code_of_createErrorResponse status_createErrorResponse)
qed

theorem unauthenticated_request_rejected_witness:
  "opt_requireAuth authOptions
   \<and> calls (createApiHandler okHandler authOptions localGet None 0 NoSession ''req_0_a'' Map.empty)
       = [ResolvedIdentity None]
   \<and> status (reply (createApiHandler okHandler authOptions localGet None 0 NoSession
                      ''req_0_a'' Map.empty)) = 401
   \<and> error_code_of (reply (createApiHandler okHandler authOptions localGet None 0 NoSession
                      ''req_0_a'' Map.empty)) = Some (JStr ''UNAUTHORIZED'')"
proof -
  have a: "opt_requireAuth authOptions" by (simp add: authOptions_def)
  have c: "calls (createApiHandler okHandler authOptions localGet None 0 NoSession
                    ''req_0_a'' Map.empty) = [ResolvedIdentity None]"
    by (simp add: createApiHandler_def try_block_def authenticate_and_handle_def
          requireAuth_def validateMethod_def authOptions_def localGet_def)
  have b: "ResolvedIdentity None \<in> set (calls (createApiHandler okHandler authOptions localGet
                    None 0 NoSession ''req_0_a'' Map.empty))"
    by (simp add: c)
  from unauthenticated_request_rejected [OF a b] a c show ?thesis by simp
qed

text \<open>
  C10. If the limiter's \<open>check\<close> throws, or it returns and
  \<open>getHeaders\<close> throws, the middleware built by \<open>createRateLimit\<close>
  returns null, and a wrapper using it replies exactly as the same wrapper
  without a rate limiter does, with the same calls after the one to the
  limiter: the failure never becomes a response of its own.
\<close>

theorem rate_limiter_fails_open:
  assumes "fst (check lim req now st) = Inl e
         \<or> (\<exists>res. fst (check lim req now st) = Inr res
                  \<and> getHeaders lim (remaining res) (res_resetTime res) = Inl e)"
  shows "fst (createRateLimit lim req now st) = Inr None
       \<and> reply (createApiHandler h (opts\<lparr>opt_rateLimiter := Some (createRateLimit lim)\<rparr>)
                  req ps now sess rid st)
         = reply (createApiHandler h (opts\<lparr>opt_rateLimiter := None\<rparr>) req ps now sess rid st)
       \<and> filter (\<lambda>ev. ev \<noteq> CalledRateLimiter)
           (calls (createApiHandler h (opts\<lparr>opt_rateLimiter := Some (createRateLimit lim)\<rparr>)
                     req ps now sess rid st))
         = calls (createApiHandler h (opts\<lparr>opt_rateLimiter := None\<rparr>) req ps now sess rid st)"
proof -
  have mw: "fst (createRateLimit lim req now st) = Inr None"
    using assms by (auto simp: createRateLimit_def split: prod.splits sum.splits)
  then obtain st' where m: "createRateLimit lim req now st = (Inr None, st')"
    by (cases "createRateLimit lim req now st") simp
  have ah: "authenticate_and_handle h (opts\<lparr>opt_rateLimiter := Some (createRateLimit lim)\<rparr>)
               req ps now sess
          = authenticate_and_handle h (opts\<lparr>opt_rateLimiter := None\<rparr>) req ps now sess"
    by (simp add: authenticate_and_handle_def)
  have nl: "filter (\<lambda>ev. ev \<noteq> CalledRateLimiter)
        (snd (authenticate_and_handle h (opts\<lparr>opt_rateLimiter := None\<rparr>) req ps now sess))
      = snd (authenticate_and_handle h (opts\<lparr>opt_rateLimiter := None\<rparr>) req ps now sess)"
    by (simp add: authenticate_and_handle_def split: sum.splits)
  show ?thesis
    using mw nl
    by (auto simp: createApiHandler_def try_block_def m ah
        split: option.splits sum.splits prod.splits)
qed

theorem rate_limiter_fails_open_witness:
  "fst (check brokenLimiter localGet 0 Map.empty) = Inl (ThrownError ''headers unavailable'')
   \<and> fst (createRateLimit brokenLimiter localGet 0 Map.empty) = Inr None
   \<and> reply (createApiHandler okHandler
              (plainOptions\<lparr>opt_rateLimiter := Some (createRateLimit brokenLimiter)\<rparr>)
              localGet None 0 NoSession ''req_0_a'' Map.empty)
     = createSuccessResponse (JObj [(''chats'', JArr [])]) 0
   \<and> calls (createApiHandler okHandler
              (plainOptions\<lparr>opt_rateLimiter := Some (createRateLimit brokenLimiter)\<rparr>)
              localGet None 0 NoSession ''req_0_a'' Map.empty)
     = [CalledRateLimiter, ResolvedIdentity None,
        InvokedHandler \<lparr>params = None, ctx_user = None\<rparr>]"
proof -
  have t: "fst (check brokenLimiter localGet 0 Map.empty)
             = Inl (ThrownError ''headers unavailable'')"
    by (simp add: brokenLimiter_def RateLimiter_def RateLimiter_check_def)
  then have d: "fst (check brokenLimiter localGet 0 Map.empty)
                  = Inl (ThrownError ''headers unavailable'')
         \<or> (\<exists>res. fst (check brokenLimiter localGet 0 Map.empty) = Inr res
                  \<and> getHeaders brokenLimiter (remaining res) (res_resetTime res)
                      = Inl (ThrownError ''headers unavailable''))"
    by simp
  have plain: "createApiHandler okHandler (plainOptions\<lparr>opt_rateLimiter := None\<rparr>)
                 localGet None 0 NoSession ''req_0_a'' Map.empty
      = \<lparr>reply = createSuccessResponse (JObj [(''chats'', JArr [])]) 0,
         calls = [ResolvedIdentity None, InvokedHandler \<lparr>params = None, ctx_user = None\<rparr>],
         store_after = Map.empty\<rparr>"
    by (simp add: createApiHandler_def try_block_def authenticate_and_handle_def
          plainOptions_def okHandler_def)
  have mw: "createRateLimit brokenLimiter localGet 0 Map.empty = (Inr None, cleanup 0 Map.empty)"
    by (simp add: createRateLimit_def brokenLimiter_def RateLimiter_def RateLimiter_check_def)
  have c: "calls (createApiHandler okHandler
              (plainOptions\<lparr>opt_rateLimiter := Some (createRateLimit brokenLimiter)\<rparr>)
              localGet None 0 NoSession ''req_0_a'' Map.empty)
     = [CalledRateLimiter, ResolvedIdentity None,
        InvokedHandler \<lparr>params = None, ctx_user = None\<rparr>]"
    by (simp add: createApiHandler_def try_block_def authenticate_and_handle_def
          plainOptions_def okHandler_def mw)
  from rate_limiter_fails_open [OF d, of okHandler plainOptions None NoSession "''req_0_a''"] t c
  show ?thesis by (simp add: plain)
qed

subsection \<open>Untyped errors in the responder\<close>

text \<open>
  \<open>str_includes\<close> is substring containment.
\<close>

lemma startsWith_iff: "startsWith s sub \<longleftrightarrow> (\<exists>q. s = sub @ q)"
  by (induction s sub rule: startsWith.induct) auto

lemma str_includes_iff: "str_includes s sub \<longleftrightarrow> (\<exists>p q. s = p @ sub @ q)"
proof (induction s)
  case Nil
  then show ?case by simp
next
  case (Cons x xs)
  have "(\<exists>p q. x # xs = p @ sub @ q)
        \<longleftrightarrow> (\<exists>q. x # xs = sub @ q) \<or> (\<exists>p q. xs = p @ sub @ q)"
  proof
    assume "\<exists>p q. x # xs = p @ sub @ q"
    then obtain p q where e: "x # xs = p @ sub @ q" by blast
    show "(\<exists>q. x # xs = sub @ q) \<or> (\<exists>p q. xs = p @ sub @ q)"
    proof (cases p)
      case Nil
      with e show ?thesis by auto
    next
      case (Cons y ys)
      with e have "xs = ys @ sub @ q" by simp
      then show ?thesis by blast
    qed
  next
    assume "(\<exists>q. x # xs = sub @ q) \<or> (\<exists>p q. xs = p @ sub @ q)"
    then show "\<exists>p q. x # xs = p @ sub @ q"
    proof
      assume "\<exists>q. x # xs = sub @ q"
      then obtain q where "x # xs = [] @ sub @ q" by auto
      then show ?thesis by blast
    next
      assume "\<exists>p q. xs = p @ sub @ q"
      then obtain p q where "x # xs = (x # p) @ sub @ q" by auto
      then show ?thesis by blast
    qed
  qed
  with Cons.IH show ?case by (simp add: startsWith_iff)
qed

text \<open>
  C5 (as amended). For an untyped \<open>Error\<close> whose message contains
  \<open>timeout\<close> or \<open>ECONNREFUSED\<close>: unless the message also contains both
  \<open>relation\<close> and \<open>does not exist\<close>, the response has code
  \<open>NETWORK_ERROR\<close>, not \<open>INTERNAL_SERVER_ERROR\<close>, and status 503; if it
  does contain both, the missing-relation branch comes first and the response
  has code \<open>DATABASE_ERROR\<close> and status 500.
\<close>

theorem untyped_network_error_response:
  assumes "str_includes msg ''timeout'' \<or> str_includes msg ''ECONNREFUSED''"
  shows "status (handleApiError (ThrownError msg) now)
           = (if str_includes msg ''relation'' \<and> str_includes msg ''does not exist''
              then 500 else 503)
       \<and> error_code_of (handleApiError (ThrownError msg) now)
           = Some (JStr (if str_includes msg ''relation'' \<and> str_includes msg ''does not exist''
                         then ''DATABASE_ERROR'' else ''NETWORK_ERROR''))"
  using assms
  by (simp add: handleApiError_def Response_json_def error_envelope_def error_code_of_def)

theorem untyped_network_error_response_witness:
  "str_includes ''Request timeout after 30s'' ''timeout''
   \<and> status (handleApiError (ThrownError ''Request timeout after 30s'') 7) = 503
   \<and> error_code_of (handleApiError (ThrownError ''Request timeout after 30s'') 7)
       = Some (JStr ''NETWORK_ERROR'')"
proof -
  have a: "str_includes ''Request timeout after 30s'' ''timeout''" by simp
  then have d: "str_includes ''Request timeout after 30s'' ''timeout''
              \<or> str_includes ''Request timeout after 30s'' ''ECONNREFUSED''" by simp
  have n: "\<not> str_includes ''Request timeout after 30s'' ''relation''" by simp
  from untyped_network_error_response [OF d, of 7] a n show ?thesis by simp
qed

text \<open>
  The claim as stated fails on a connection-refused message: the status is
  503, not the 500 that \<open>getStatusCodeFromErrorCode\<close> gives
  \<open>NETWORK_ERROR\<close>; and a message that also names a missing relation is
  classified as \<open>DATABASE_ERROR\<close>.
\<close>

theorem untyped_network_error_counterexample:
  "str_includes ''connect ECONNREFUSED 127.0.0.1:5432'' ''ECONNREFUSED''
   \<and> status (handleApiError (ThrownError ''connect ECONNREFUSED 127.0.0.1:5432'') 0) = 503
   \<and> error_code_of (handleApiError (ThrownError ''connect ECONNREFUSED 127.0.0.1:5432'') 0)
       = Some (JStr ''NETWORK_ERROR'')
   \<and> getStatusCodeFromErrorCode NETWORK_ERROR = 500
   \<and> str_includes ''relation users does not exist (statement timeout)'' ''timeout''
   \<and> error_code_of
        (handleApiError (ThrownError ''relation users does not exist (statement timeout)'') 0)
       = Some (JStr ''DATABASE_ERROR'')"
  by (simp add: handleApiError_def Response_json_def error_envelope_def error_code_of_def)

subsection \<open>Retry helper\<close>

text \<open>
  When every invocation fails, the loop entered at \<open>attempt\<close> invokes the
  operation once per remaining attempt, waits \<open>delay * 2^(a - 1)\<close> after
  each failed attempt \<open>a\<close> but the last, and raises the error that wraps
  the last failure.
\<close>

lemma withRetry_all_fail_from:
  assumes "\<forall>n. \<exists>e. operation n = Inl e"
  shows "attempt \<le> maxRetries \<Longrightarrow> 1 \<le> attempt \<Longrightarrow>
     invocations (withRetry_from operation maxRetries delay now attempt made ws)
        = made + nat (maxRetries + 1 - attempt)
     \<and> waits (withRetry_from operation maxRetries delay now attempt made ws)
        = ws @ map (\<lambda>a. delay * 2 ^ nat (a - 1)) [attempt..maxRetries - 1]
     \<and> outcome (withRetry_from operation maxRetries delay now attempt made ws)
        = Inl (ThrownApplicationError
            (new_ApplicationError EXTERNAL_API_ERROR
               (''Operation failed after '' @ toString maxRetries @ '' attempts: ''
                  @ lastError_message
                      (projl (operation (made + nat (maxRetries - attempt)))))
               (Some (JObj [(''attempts'', JNum maxRetries),
                            (''lastError'', JStr (lastError_message
                               (projl (operation (made + nat (maxRetries - attempt))))))]))
               now))"
proof (induction "nat (maxRetries - attempt)" arbitrary: attempt made ws)
  case 0
  then have eq: "attempt = maxRetries" by simp
  obtain e where e: "operation made = Inl e" using assms by blast
  show ?case
    by (subst (1 2 3) withRetry_from.simps) (simp add: e eq)
next
  case (Suc k)
  obtain e where e: "operation made = Inl e" using assms by blast
  have ne: "attempt \<noteq> maxRetries" and lt: "attempt + 1 \<le> maxRetries" "1 \<le> attempt + 1"
    and k: "k = nat (maxRetries - (attempt + 1))"
    using Suc.hyps(2) Suc.prems by simp_all
  note ih = Suc.hyps(1)[OF k lt, of "Suc made" "ws @ [delay * 2 ^ nat (attempt - 1)]"]
  have up: "[attempt..maxRetries - 1] = attempt # [attempt + 1..maxRetries - 1]"
    using lt by (simp add: upto_rec1)
  have n1: "Suc made + nat (maxRetries + 1 - (attempt + 1)) = made + nat (maxRetries + 1 - attempt)"
    using lt by simp
  have n2: "Suc made + nat (maxRetries - (attempt + 1)) = made + nat (maxRetries - attempt)"
    using lt by simp
  have unfold: "withRetry_from operation maxRetries delay now attempt made ws
      = withRetry_from operation maxRetries delay now (attempt + 1) (Suc made)
          (ws @ [delay * 2 ^ nat (attempt - 1)])"
    using ne Suc.prems by (subst withRetry_from.simps) (simp add: e)
  show ?case
    unfolding unfold using ih by (simp only: up n1 n2 list.map append_Cons append_Nil append_assoc) 
qed

lemma toString_3: "toString 3 = ''3''"
  by (simp add: toString_def show_nat.simps digit_char_def)

text \<open>
  C6. For an operation that fails at every invocation, \<open>withRetry\<close> with
  \<open>maxRetries = 3\<close> invokes it exactly 3 times, waits
  \<open>delay * 2^(1-1)\<close> after the first attempt and \<open>delay * 2^(2-1)\<close> after
  the second, and raises an \<open>ApplicationError\<close> of kind
  \<open>EXTERNAL_API_ERROR\<close> with \<open>details.attempts = 3\<close>. The error wraps
  what the third invocation threw: its message for an \<open>Error\<close> or an
  \<open>ApplicationError\<close>, its string rendering for any other value, both in
  the new message and under \<open>details.lastError\<close>.
\<close>

theorem withRetry_three_failures:
  assumes "\<forall>n. \<exists>e. operation n = Inl e"
  shows "invocations (withRetry operation 3 delay now) = 3
       \<and> waits (withRetry operation 3 delay now) = [delay * 2 ^ (1 - 1), delay * 2 ^ (2 - 1)]
       \<and> (\<exists>err d. outcome (withRetry operation 3 delay now) = Inl (ThrownApplicationError err)
                  \<and> code err = EXTERNAL_API_ERROR
                  \<and> details err = Some d \<and> field ''attempts'' d = Some (JNum 3))
       \<and> (\<forall>m. operation 2 = Inl (ThrownError m) \<longrightarrow>
             outcome (withRetry operation 3 delay now)
               = Inl (ThrownApplicationError
                   \<lparr>code = EXTERNAL_API_ERROR,
                    message = ''Operation failed after 3 attempts: '' @ m,
                    details = Some (JObj [(''attempts'', JNum 3), (''lastError'', JStr m)]),
                    timestamp = now, userId = None, requestId = None\<rparr>))
       \<and> (\<forall>e. operation 2 = Inl (ThrownApplicationError e) \<longrightarrow>
             outcome (withRetry operation 3 delay now)
               = Inl (ThrownApplicationError
                   \<lparr>code = EXTERNAL_API_ERROR,
                    message = ''Operation failed after 3 attempts: '' @ message e,
                    details = Some (JObj [(''attempts'', JNum 3),
                                          (''lastError'', JStr (message e))]),
                    timestamp = now, userId = None, requestId = None\<rparr>))
       \<and> (\<forall>v. operation 2 = Inl (ThrownValue v) \<longrightarrow>
             outcome (withRetry operation 3 delay now)
               = Inl (ThrownApplicationError
                   \<lparr>code = EXTERNAL_API_ERROR,
                    message = ''Operation failed after 3 attempts: '' @ v,
                    details = Some (JObj [(''attempts'', JNum 3), (''lastError'', JStr v)]),
                    timestamp = now, userId = None, requestId = None\<rparr>))
       \<and> (\<forall>r. operation 2 = Inl (ThrownResponse r) \<longrightarrow>
             outcome (withRetry operation 3 delay now)
               = Inl (ThrownApplicationError
                   \<lparr>code = EXTERNAL_API_ERROR,
                    message = ''Operation failed after 3 attempts: [object Response]'',
                    details = Some (JObj [(''attempts'', JNum 3),
                                          (''lastError'', JStr ''[object Response]'')]),
                    timestamp = now, userId = None, requestId = None\<rparr>))"
proof -
  have up: "[1..(2::int)] = [1, 2]" by (simp add: upto_rec1)
  from withRetry_all_fail_from[OF assms, where attempt=1 and maxRetries=3 and delay=delay
      and now=now and made=0 and ws="[]"]
  have i: "invocations (withRetry operation 3 delay now) = 3"
    and w: "waits (withRetry operation 3 delay now) = [delay * 2 ^ (1 - 1), delay * 2 ^ (2 - 1)]"
    and o: "outcome (withRetry operation 3 delay now)
        = Inl (ThrownApplicationError
            \<lparr>code = EXTERNAL_API_ERROR,
             message = ''Operation failed after 3 attempts: ''
                         @ lastError_message (projl (operation 2)),
             details = Some (JObj [(''attempts'', JNum 3),
                            (''lastError'', JStr (lastError_message (projl (operation 2))))]),
             timestamp = now, userId = None, requestId = None\<rparr>)"
    by (simp_all add: withRetry_def up new_ApplicationError_def numeral_2_eq_2 toString_3)
  have e: "\<exists>err d. outcome (withRetry operation 3 delay now) = Inl (ThrownApplicationError err)
                  \<and> code err = EXTERNAL_API_ERROR
                  \<and> details err = Some d \<and> field ''attempts'' d = Some (JNum 3)"
    unfolding o by simp
  from i w e show ?thesis
    by (simp add: o)
qed

theorem withRetry_three_failures_witness:
  "alwaysDown 0 = Inl (ThrownError ''upstream unavailable'')
   \<and> alwaysDown 2 = Inl (ThrownError ''upstream unavailable'')
   \<and> invocations (withRetry alwaysDown 3 1000 5) = 3
   \<and> waits (withRetry alwaysDown 3 1000 5) = [1000, 2000]
   \<and> outcome (withRetry alwaysDown 3 1000 5)
       = Inl (ThrownApplicationError
           \<lparr>code = EXTERNAL_API_ERROR,
            message = ''Operation failed after 3 attempts: upstream unavailable'',
            details = Some (JObj [(''attempts'', JNum 3),
                                  (''lastError'', JStr ''upstream unavailable'')]),
            timestamp = 5, userId = None, requestId = None\<rparr>)"
proof -
  have f: "\<forall>n. \<exists>e. alwaysDown n = Inl e" by (simp add: alwaysDown_def)
  have a0: "alwaysDown 0 = Inl (ThrownError ''upstream unavailable'')"
    and a2: "alwaysDown 2 = Inl (ThrownError ''upstream unavailable'')"
    by (simp_all add: alwaysDown_def)
  from withRetry_three_failures [OF f, where delay=1000 and now=5] a0 a2 show ?thesis
    by simp
qed

subsection \<open>Validators\<close>

lemma email_accepts: "regex_test emailRegex ''a@b.co''"
  by (simp add: regex_test_def emailRegex_def not_space_at_def is_space_def)

lemma email_rejects: "\<not> regex_test emailRegex ''not-an-email''"
  by (simp add: regex_test_def emailRegex_def not_space_at_def is_space_def)

lemma uuid_rejects: "\<not> regex_test uuidRegex ''1234''"
  by (simp add: regex_test_def uuidRegex_def hex_digit_def eval_nat_numeral)

text \<open>
  A run of \<open>n\<close> characters of a class is consumed by \<open>{n}\<close> in exactly
  one way.
\<close>

lemma times_class:
  "list_all p a \<Longrightarrow> times_iter (remainders (Class p)) (length a) (a @ rest) = [rest]"
  by (induction a) simp_all

lemma times_class_n:
  "length a = n \<Longrightarrow> list_all p a \<Longrightarrow> remainders (Times n (Class p)) (a @ rest) = [rest]"
  using times_class[of p a rest] by simp

lemma uuid_shape:
  assumes "length a = 8" "length b = 4" "length c = 3" "length d = 3" "length e = 12"
    and "list_all hex_digit a" "list_all hex_digit b" "list_all hex_digit c"
        "list_all hex_digit d" "list_all hex_digit e"
    and "version_digit ver" "variant_digit var"
  shows "regex_test uuidRegex
           (a @ CHR ''-'' # b @ CHR ''-'' # ver # c @ CHR ''-'' # var # d @ CHR ''-'' # e)"
proof -
  have e: "remainders (Times 12 (Class hex_digit)) e = [[]]"
    using times_class_n[of e 12 hex_digit "[]"] assms by simp
  show ?thesis
    using assms
    by (simp add: regex_test_def uuidRegex_def times_class_n e dash_def del: remainders.simps(4))
qed

lemma uuid_v4_split:
  assumes "uuid_v4_wellformed s"
  shows "s = take 8 s @ CHR ''-'' # take 4 (drop 9 s) @ CHR ''-'' # CHR ''4''
             # take 3 (drop 15 s) @ CHR ''-'' # s ! 19 # take 3 (drop 20 s) @ CHR ''-''
             # drop 24 s"
proof -
  have len: "length s = 36" using assms by (simp add: uuid_v4_wellformed_def)
  have n: "s ! 8 = CHR ''-''" "s ! 13 = CHR ''-''" "s ! 14 = CHR ''4''" "s ! 18 = CHR ''-''"
      "s ! 23 = CHR ''-''"
    using assms by (simp_all add: uuid_v4_wellformed_def)
  have 1: "s = take 8 s @ s ! 8 # drop 9 s"
    using id_take_nth_drop[of 8 s] len by simp
  have 2: "drop 9 s = take 4 (drop 9 s) @ s ! 13 # drop 14 s"
    using id_take_nth_drop[of 4 "drop 9 s"] len by simp
  have 3: "drop 14 s = s ! 14 # drop 15 s"
    using Cons_nth_drop_Suc[of 14 s] len by simp
  have 4: "drop 15 s = take 3 (drop 15 s) @ s ! 18 # drop 19 s"
    using id_take_nth_drop[of 3 "drop 15 s"] len by simp
  have 5: "drop 19 s = s ! 19 # drop 20 s"
    using Cons_nth_drop_Suc[of 19 s] len by simp
  have 6: "drop 20 s = take 3 (drop 20 s) @ s ! 23 # drop 24 s"
    using id_take_nth_drop[of 3 "drop 20 s"] len by simp
  show ?thesis
    by (subst 1, subst 2, subst 3, subst 4, subst 5, subst 6) (simp add: n)
qed

lemma rfc_hex: "rfc_hexDigit = hex_digit"
  by (rule ext) (auto simp: rfc_hexDigit_def hex_digit_def)

lemma uuid_v4_accepted: 
  assumes "uuid_v4_wellformed s"
  shows "regex_test uuidRegex s"
proof -
  have len: "length s = 36" using assms by (simp add: uuid_v4_wellformed_def)
  have h: "list_all hex_digit (take 8 s)" "list_all hex_digit (take 4 (drop 9 s))"
     "list_all hex_digit (take 3 (drop 15 s))" "list_all hex_digit (take 3 (drop 20 s))"
     "list_all hex_digit (drop 24 s)"
    using assms by (simp_all add: uuid_v4_wellformed_def rfc_hex)
  have v: "version_digit (CHR ''4'')" by (simp add: version_digit_def)
  have w: "variant_digit (s ! 19)"
    using assms by (simp add: uuid_v4_wellformed_def variant_digit_def)
  have l: "length (take 8 s) = 8" "length (take 4 (drop 9 s)) = 4"
     "length (take 3 (drop 15 s)) = 3" "length (take 3 (drop 20 s)) = 3"
     "length (drop 24 s) = 12"
    using len by simp_all
  from uuid_shape[OF l h v w] uuid_v4_split[OF assms] show ?thesis by simp
qed

text \<open>
  C8. \<open>validators.email\<close> returns on \<open>a@b.co\<close> and throws a
  \<open>VALIDATION_ERROR\<close> on \<open>not-an-email\<close>; \<open>validators.uuid\<close> returns
  on every well-formed version-4 UUID and throws a \<open>VALIDATION_ERROR\<close> on
  \<open>1234\<close>. Whatever the input, an error thrown by either validator is of
  the validation family and its details carry the field name under
  \<open>field\<close>; a successful call returns no value.
\<close>

theorem validators_email_uuid:
  "validators_email ''a@b.co'' fieldName now = Inr ()
   \<and> validators_email ''not-an-email'' fieldName now
       = Inl (ThrownApplicationError
           (new_ApplicationError VALIDATION_ERROR
              ((case fieldName of None \<Rightarrow> ''email'' | Some n \<Rightarrow> n)
                 @ '' must be a valid email address'')
              (Some (JObj [(''field'', JStr (case fieldName of None \<Rightarrow> ''email'' | Some n \<Rightarrow> n)),
                           (''value'', JStr ''not-an-email'')]))
              now))
   \<and> (uuid_v4_wellformed s \<longrightarrow> validators_uuid s f now = Inr ())
   \<and> validators_uuid ''1234'' f now
       = Inl (ThrownApplicationError
           (new_ApplicationError VALIDATION_ERROR (f @ '' must be a valid UUID'')
              (Some (JObj [(''field'', JStr f), (''value'', JStr ''1234'')])) now))
   \<and> (\<forall>t. validators_email x fieldName now = Inl t \<longrightarrow>
          validation_family t
          \<and> details_field t = Some (JStr (case fieldName of None \<Rightarrow> ''email'' | Some n \<Rightarrow> n)))
   \<and> (\<forall>t. validators_uuid x f now = Inl t \<longrightarrow>
          validation_family t \<and> details_field t = Some (JStr f))"
proof -
  have a: "validators_email ''a@b.co'' fieldName now = Inr ()"
    by (simp add: validators_email_def email_accepts Let_def)
  have b: "validators_email ''not-an-email'' fieldName now
       = Inl (ThrownApplicationError
           (new_ApplicationError VALIDATION_ERROR
              ((case fieldName of None \<Rightarrow> ''email'' | Some n \<Rightarrow> n)
                 @ '' must be a valid email address'')
              (Some (JObj [(''field'', JStr (case fieldName of None \<Rightarrow> ''email'' | Some n \<Rightarrow> n)),
                           (''value'', JStr ''not-an-email'')]))
              now))"
    using email_rejects by (simp add: validators_email_def Let_def)
  have c: "uuid_v4_wellformed s \<Longrightarrow> validators_uuid s f now = Inr ()"
    by (simp add: validators_uuid_def uuid_v4_accepted)
  have d: "validators_uuid ''1234'' f now
       = Inl (ThrownApplicationError
           (new_ApplicationError VALIDATION_ERROR (f @ '' must be a valid UUID'')
              (Some (JObj [(''field'', JStr f), (''value'', JStr ''1234'')])) now))"
    using uuid_rejects by (simp add: validators_uuid_def)
  have e: "\<forall>t. validators_email x fieldName now = Inl t \<longrightarrow>
          validation_family t
          \<and> details_field t = Some (JStr (case fieldName of None \<Rightarrow> ''email'' | Some n \<Rightarrow> n))"
    by (auto simp: validators_email_def validation_family_def details_field_def
          new_ApplicationError_def Let_def split: if_splits)
  have g: "\<forall>t. validators_uuid x f now = Inl t \<longrightarrow>
          validation_family t \<and> details_field t = Some (JStr f)"
    by (auto simp: validators_uuid_def validation_family_def details_field_def
          new_ApplicationError_def split: if_splits)
  from a b c d e g show ?thesis by blast
qed

theorem validators_email_uuid_witness:
  "uuid_v4_wellformed ''123e4567-e89b-42d3-A456-426614174000''
   \<and> validators_uuid ''123e4567-e89b-42d3-A456-426614174000'' ''chatId'' 0 = Inr ()
   \<and> validators_uuid ''1234'' ''chatId'' 0
       = Inl (ThrownApplicationError
           \<lparr>code = VALIDATION_ERROR, message = ''chatId must be a valid UUID'',
            details = Some (JObj [(''field'', JStr ''chatId''), (''value'', JStr ''1234'')]),
            timestamp = 0, userId = None, requestId = None\<rparr>)
   \<and> details_field (projl (validators_uuid ''1234'' ''chatId'' 0)) = Some (JStr ''chatId'')
   \<and> validators_email ''a@b.co'' None 0 = Inr ()
   \<and> details_field (projl (validators_email ''not-an-email'' None 0)) = Some (JStr ''email'')"
proof -
  have w: "uuid_v4_wellformed ''123e4567-e89b-42d3-A456-426614174000''"
    by (simp add: uuid_v4_wellformed_def rfc_hexDigit_def)
  from validators_email_uuid
         [of None 0 "''123e4567-e89b-42d3-A456-426614174000''" "''chatId''" "''not-an-email''"] w
  show ?thesis
    by (simp add: new_ApplicationError_def details_field_def)
qed

end
